theory Spec2Isabelle
  imports Complex_Main
begin

section \<open>SimpleFin bridge exporter: shared vocabulary\<close>

text \<open>
  The embedding follows \<^verbatim>\<open>cmd/main.go\<close>, \<^verbatim>\<open>pkg/exporter\<close> and \<^verbatim>\<open>pkg/config\<close>.
  A Go \<^verbatim>\<open>error\<close> is represented by its message. Everything the program does to the
  outside (logger calls, Kubernetes API calls, file system calls, HTTP requests,
  starting the metrics server) is appended, in program order, to a trace of events.
  The trace records the call to the logger, whatever level the logger is set to print.
\<close>

type_synonym err = string

datatype level = DebugLevel | InfoLevel | WarnLevel | ErrorLevel | FatalLevel

subsection \<open>The account snapshot (fields of \<^verbatim>\<open>simplefin.Accounts\<close> the exporter reads)\<close>

record Organization =
  Domain' :: string

record Account =
  Org :: Organization
  ID :: string
  Name :: string
  Currency :: string
  Balance :: string
  AvailableBalance :: string
  BalanceDate :: int

record Accounts =
  Accounts :: "Account list"

datatype event =
    Log level "err option" string
  | SecretGet string string
  | SecretUpdate string string
  | FileRead string
  | FileRemove string
  | HttpPost string
  | ListenAndServe int
  | PrettyPrint "Account list"

definition is_error_log :: "event \<Rightarrow> bool" where
  "is_error_log ev = (case ev of Log ErrorLevel _ _ \<Rightarrow> True | _ \<Rightarrow> False)"

section \<open>Package config: the mapping policy\<close>

record AccountMapping =
  AccountID :: string
  CustomName :: string

record AccountMappingConfig =
  Mappings :: "AccountMapping list"
  IgnoreList :: "string list"

text \<open>The two \<^verbatim>\<open>for ... range\<close> loops with an early \<^verbatim>\<open>return\<close>.\<close>

fun name_mapping_scan :: "AccountMapping list \<Rightarrow> string \<Rightarrow> string \<Rightarrow> string" where
  "name_mapping_scan [] accountID originalName = originalName"
| "name_mapping_scan (mapping # rest) accountID originalName =
     (if AccountID mapping = accountID then CustomName mapping
      else name_mapping_scan rest accountID originalName)"

definition GetAccountNameMapping :: "AccountMappingConfig \<Rightarrow> string \<Rightarrow> string \<Rightarrow> string" where
  "GetAccountNameMapping config accountID originalName =
     name_mapping_scan (Mappings config) accountID originalName"

fun ignored_scan :: "string list \<Rightarrow> string \<Rightarrow> bool" where
  "ignored_scan [] accountID = False"
| "ignored_scan (ignoredID # rest) accountID =
     (if ignoredID = accountID then True else ignored_scan rest accountID)"

definition IsAccountIgnored :: "AccountMappingConfig \<Rightarrow> string \<Rightarrow> bool" where
  "IsAccountIgnored config accountID = ignored_scan (IgnoreList config) accountID"

section \<open>Package exporter\<close>

text \<open>
  A \<^verbatim>\<open>prometheus.GaugeVec\<close> is the map from a list of label values to the value of
  that series; \<^verbatim>\<open>WithLabelValues(lvs...).Set(v)\<close> creates the series when it is new
  and stores \<^verbatim>\<open>v\<close> in it. The number of label values given at each call site is
  the number of labels the vector was created with in \<^verbatim>\<open>NewExporter\<close> (four, four and
  three), so the cardinality panic of \<^verbatim>\<open>WithLabelValues\<close> has no branch here.

  The values of a gauge are the \<^verbatim>\<open>float64\<close> of Go. Their type is the parameter
  \<open>'v\<close>, and the two operations the exporter uses on them are parameters as well:
  \<^verbatim>\<open>strconv.ParseFloat(s, 32)\<close> and the conversion \<^verbatim>\<open>float64(n)\<close> of an
  \<^verbatim>\<open>int64\<close>.
\<close>

type_synonym 'v GaugeVec = "string list \<rightharpoonup> 'v"

record 'v strconv =
  ParseFloat32 :: "string \<Rightarrow> err + 'v"
  float64 :: "int \<Rightarrow> 'v"

record 'v Exporter =
  balances :: "'v GaugeVec"
  availableBalances :: "'v GaugeVec"
  last_updated :: "'v GaugeVec"
  AccountMappings :: AccountMappingConfig

definition NewExporter :: "AccountMappingConfig \<Rightarrow> 'v Exporter" where
  "NewExporter accountMappings =
     \<lparr> balances = Map.empty, availableBalances = Map.empty, last_updated = Map.empty,
       AccountMappings = accountMappings \<rparr>"

definition WithLabelValues_Set :: "'v GaugeVec \<Rightarrow> string list \<Rightarrow> 'v \<Rightarrow> 'v GaugeVec" where
  "WithLabelValues_Set g lvs v = g(lvs \<mapsto> v)"

definition msg_skipping :: "Account \<Rightarrow> string" where
  "msg_skipping accItem =
     ''Skipping ignored account: '' @ Name accItem @ '' (ID: '' @ ID accItem @ '')''"

definition msg_balance :: "Account \<Rightarrow> string" where
  "msg_balance accItem =
     ''Could not parse balance from '' @ Domain' (Org accItem) @ '' - '' @ Name accItem
       @ '' (ID: '' @ ID accItem @ '')''"

definition msg_available :: "Account \<Rightarrow> string" where
  "msg_available accItem =
     ''Could not parse available balance from '' @ Domain' (Org accItem) @ '' - ''
       @ Name accItem @ '' (ID: '' @ ID accItem @ '')''"

text \<open>
  The body of the loop of \<^verbatim>\<open>Export\<close>, for one record: the state is the exporter and
  the trace.
\<close>

definition export_account ::
  "'v strconv \<Rightarrow> Account \<Rightarrow> 'v Exporter \<times> event list \<Rightarrow> 'v Exporter \<times> event list" where
  "export_account S accItem st =
     (let (e, tr) = st in
      if IsAccountIgnored (AccountMappings e) (ID accItem)
      then (e, tr @ [Log DebugLevel None (msg_skipping accItem)])
      else
        let accountName = GetAccountNameMapping (AccountMappings e) (ID accItem) (Name accItem);
            (e1, tr1) =
              (case ParseFloat32 S (Balance accItem) of
                 Inl err \<Rightarrow> (e, tr @ [Log ErrorLevel (Some err) (msg_balance accItem)])
               | Inr bal \<Rightarrow>
                   (e\<lparr>balances := WithLabelValues_Set (balances e)
                        [Domain' (Org accItem), accountName, ID accItem, Currency accItem] bal\<rparr>,
                    tr));
            (e2, tr2) =
              (case ParseFloat32 S (AvailableBalance accItem) of
                 Inl err \<Rightarrow> (e1, tr1 @ [Log ErrorLevel (Some err) (msg_available accItem)])
               | Inr availBal \<Rightarrow>
                   (e1\<lparr>availableBalances := WithLabelValues_Set (availableBalances e1)
                        [Domain' (Org accItem), accountName, ID accItem, Currency accItem]
                        availBal\<rparr>,
                    tr1))
        in (e2\<lparr>last_updated := WithLabelValues_Set (last_updated e2)
                 [Domain' (Org accItem), accountName, ID accItem]
                 (float64 S (BalanceDate accItem))\<rparr>,
            tr2))"

fun export_range :: "'v strconv \<Rightarrow> Account list \<Rightarrow> 'v Exporter \<times> event list
    \<Rightarrow> 'v Exporter \<times> event list" where
  "export_range S [] st = st"
| "export_range S (accItem # rest) st = export_range S rest (export_account S accItem st)"

text \<open>\<^verbatim>\<open>Export\<close> returns the new state and its \<^verbatim>\<open>error\<close> result (\<open>None\<close> is \<^verbatim>\<open>nil\<close>).\<close>

definition Export ::
  "'v strconv \<Rightarrow> 'v Exporter \<times> event list \<Rightarrow> Accounts
    \<Rightarrow> ('v Exporter \<times> event list) \<times> err option" where
  "Export S st accounts = (export_range S (Accounts accounts) st, None)"

section \<open>The world outside the process\<close>

text \<open>
  A file of the file system: its content, and the error (if any) that reading or
  removing it meets, such as a permission that is missing.
\<close>

record file_node =
  content :: string
  read_error :: "err option"
  remove_error :: "err option"

text \<open>Go's \<^verbatim>\<open>*fs.PathError\<close>, which \<^verbatim>\<open>os.ReadFile\<close> and \<^verbatim>\<open>os.Remove\<close> return.\<close>

datatype PathError = PathError (Op: string) (Path: string) (Err: string)

definition PathError_Error :: "PathError \<Rightarrow> err" where
  "PathError_Error e = Op e @ '' '' @ Path e @ '': '' @ Err e"

definition ENOENT :: string where
  "ENOENT = ''no such file or directory''"

definition IsNotExist :: "PathError \<Rightarrow> bool" where
  "IsNotExist e = (Err e = ENOENT)"

text \<open>A Kubernetes secret: its \<^verbatim>\<open>Data\<close> map, which may be \<^verbatim>\<open>nil\<close>.\<close>

record Secret =
  Data :: "(string \<rightharpoonup> string) option"

text \<open>
  The world holds the secrets of the cluster by (namespace, name), the files by path,
  the answer of the network to a POST with an empty body to a URL (a transport error,
  or a status code with the body or the error of reading it), the faults of the
  Kubernetes API, and the trace of what the process has done so far.
\<close>

record world =
  InClusterConfig_err :: "err option"
  NewForConfig_err :: "err option"
  secrets :: "string \<times> string \<rightharpoonup> Secret"
  Get_err :: "err option"
  Update_err :: "err option"
  files :: "string \<rightharpoonup> file_node"
  http_response :: "string \<Rightarrow> err + (int \<times> (err + string))"
  trace :: "event list"

definition emit :: "event \<Rightarrow> world \<Rightarrow> world" where
  "emit ev w = w\<lparr>trace := trace w @ [ev]\<rparr>"

definition logw :: "level \<Rightarrow> err option \<Rightarrow> string \<Rightarrow> world \<Rightarrow> world" where
  "logw lvl e m w = emit (Log lvl e m) w"

definition os_ReadFile :: "world \<Rightarrow> string \<Rightarrow> world \<times> (PathError + string)" where
  "os_ReadFile w name =
     (emit (FileRead name) w,
      case files w name of
        None \<Rightarrow> Inl (PathError ''open'' name ENOENT)
      | Some f \<Rightarrow>
          (case read_error f of
             Some e \<Rightarrow> Inl (PathError ''open'' name e)
           | None \<Rightarrow> Inr (content f)))"

definition os_Remove :: "world \<Rightarrow> string \<Rightarrow> world \<times> PathError option" where
  "os_Remove w name =
     (case files w name of
        None \<Rightarrow> (emit (FileRemove name) w, Some (PathError ''remove'' name ENOENT))
      | Some f \<Rightarrow>
          (case remove_error f of
             Some e \<Rightarrow> (emit (FileRemove name) w, Some (PathError ''remove'' name e))
           | None \<Rightarrow> (emit (FileRemove name) (w\<lparr>files := (files w)(name := None)\<rparr>), None)))"

definition Secrets_Get :: "world \<Rightarrow> string \<Rightarrow> string \<Rightarrow> world \<times> (err + Secret)" where
  "Secrets_Get w ns name =
     (emit (SecretGet ns name) w,
      case Get_err w of
        Some e \<Rightarrow> Inl e
      | None \<Rightarrow>
          (case secrets w (ns, name) of
             None \<Rightarrow> Inl (''secrets '' @ name @ '' not found'')
           | Some s \<Rightarrow> Inr s))"

definition Secrets_Update :: "world \<Rightarrow> string \<Rightarrow> string \<Rightarrow> Secret \<Rightarrow> world \<times> err option" where
  "Secrets_Update w ns name s =
     (case Update_err w of
        Some e \<Rightarrow> (emit (SecretUpdate ns name) w, Some e)
      | None \<Rightarrow>
          (case secrets w (ns, name) of
             None \<Rightarrow> (emit (SecretUpdate ns name) w, Some (''secrets '' @ name @ '' not found''))
           | Some _ \<Rightarrow>
               (emit (SecretUpdate ns name) (w\<lparr>secrets := (secrets w)((ns, name) \<mapsto> s)\<rparr>),
                None)))"

text \<open>
  The functions of Go's library and of \<^verbatim>\<open>pkg/simplefin\<close> that the program calls and
  whose code is not part of the sources are parameters: base64 decoding, the check
  \<^verbatim>\<open>http.NewRequest\<close> makes of a URL, \<^verbatim>\<open>url.Parse\<close> followed by \<^verbatim>\<open>String()\<close>,
  \<^verbatim>\<open>time.ParseDuration\<close>, \<^verbatim>\<open>Duration.String\<close>, \<^verbatim>\<open>json.Unmarshal\<close> into an
  \<^verbatim>\<open>AccountMappingConfig\<close>, and the error \<^verbatim>\<open>NewSimplefinClient\<close> returns for a URL.
\<close>

record library =
  base64_DecodeString :: "string \<Rightarrow> err + string"
  http_NewRequest_err :: "string \<Rightarrow> err option"
  url_Parse_String :: "string \<Rightarrow> err + string"
  time_ParseDuration :: "string \<Rightarrow> err + int"
  Duration_String :: "int \<Rightarrow> string"
  json_Unmarshal :: "string \<Rightarrow> err + AccountMappingConfig"
  NewSimplefinClient_err :: "string \<Rightarrow> err option"

text \<open>
  Modelled from the spec: \<^verbatim>\<open>pkg/simplefin\<close> is not among the sources. The spec's account
  client makes its remote call "given the resolved access URL"; the client is
  represented by the access URL it was constructed from.
\<close>

datatype SimplefinClient = SimplefinClient string

definition NewSimplefinClient :: "library \<Rightarrow> string \<Rightarrow> err + SimplefinClient" where
  "NewSimplefinClient L url =
     (case NewSimplefinClient_err L url of
        Some e \<Rightarrow> Inl e
      | None \<Rightarrow> Inr (SimplefinClient url))"

subsection \<open>Formatting with \<^verbatim>\<open>%d\<close>, and \<^verbatim>\<open>strings.HasPrefix\<close>\<close>

fun show_nat :: "nat \<Rightarrow> string" where
  "show_nat n =
     (if n < 10 then [''0123456789'' ! n]
      else show_nat (n div 10) @ [''0123456789'' ! (n mod 10)])"

declare show_nat.simps [simp del]

definition show_int :: "int \<Rightarrow> string" where
  "show_int i = (if i < 0 then ''-'' @ show_nat (nat (- i)) else show_nat (nat i))"

definition HasPrefix :: "string \<Rightarrow> string \<Rightarrow> bool" where
  "HasPrefix s p = (take (length p) s = p)"

fun Join :: "string list \<Rightarrow> string \<Rightarrow> string" where
  "Join [] sep = []"
| "Join [x] sep = x"
| "Join (x # y # rest) sep = x @ sep @ Join (y # rest) sep"

section \<open>Package config: files\<close>

definition ReadAndDeleteAccessURLFile ::
  "library \<Rightarrow> world \<Rightarrow> string \<Rightarrow> world \<times> (err + string)" where
  "ReadAndDeleteAccessURLFile L w filepath =
     (case os_ReadFile w filepath of
        (w1, Inl e) \<Rightarrow> (w1, Inl (''error reading AccessUrl path: '' @ PathError_Error e))
      | (w1, Inr data) \<Rightarrow>
          (case url_Parse_String L data of
             Inl e \<Rightarrow> (w1, Inl (''error parsing AccessUrl: '' @ e))
           | Inr parsedUrl \<Rightarrow>
               (case os_Remove w1 filepath of
                  (w2, Some e) \<Rightarrow>
                    (w2, Inl (''error removing AccessUrl file: '' @ PathError_Error e))
                | (w2, None) \<Rightarrow> (w2, Inr parsedUrl))))"

definition LoadAccountMappings ::
  "library \<Rightarrow> world \<Rightarrow> string \<Rightarrow> world \<times> (err + AccountMappingConfig)" where
  "LoadAccountMappings L w filepath =
     (if filepath = '''' then (w, Inr \<lparr>Mappings = [], IgnoreList = []\<rparr>)
      else
        (case os_ReadFile w filepath of
           (w1, Inl e) \<Rightarrow>
             (if IsNotExist e then (w1, Inr \<lparr>Mappings = [], IgnoreList = []\<rparr>)
              else (w1, Inl (''error reading account mappings file: '' @ PathError_Error e)))
         | (w1, Inr data) \<Rightarrow>
             (case json_Unmarshal L data of
                Inl e \<Rightarrow> (w1, Inl (''error parsing account mappings JSON: '' @ e))
              | Inr config \<Rightarrow> (w1, Inr config))))"

section \<open>Package main\<close>

text \<open>
  The package-level variables of \<^verbatim>\<open>main.go\<close>. The flags are the values
  \<^verbatim>\<open>flag.Parse\<close> leaves in them (\<open>duration\<close> is the local variable of
  \<^verbatim>\<open>parseConfig\<close> that holds the \<^verbatim>\<open>updateInterval\<close> flag, \<open>args\<close> is
  \<^verbatim>\<open>os.Args[1:]\<close>); \<open>client\<close> and \<open>accountMappings\<close> are \<^verbatim>\<open>nil\<close> (\<open>None\<close>)
  until \<^verbatim>\<open>parseConfig\<close> assigns them.
\<close>

record globals =
  setupToken :: string
  accessUrl :: string
  accessUrlVolatileFile :: string
  debug :: bool
  httpPort :: int
  duration :: string
  updateInterval :: int
  secretName :: string
  secretNamespace :: string
  accountMappingsFile :: string
  args :: "string list"
  client :: "SimplefinClient option"
  accountMappings :: "AccountMappingConfig option"

text \<open>
  \<^verbatim>\<open>initKubernetesClient\<close> assigns \<^verbatim>\<open>k8sClient\<close>, and \<^verbatim>\<open>parseConfig\<close> calls it
  before any call that uses the client; the calls to the API are the two functions
  \<open>Secrets_Get\<close> and \<open>Secrets_Update\<close> on the world, and what is kept here is whether
  creating the client fails.
\<close>

definition initKubernetesClient :: "world \<Rightarrow> err option" where
  "initKubernetesClient w =
     (case InClusterConfig_err w of
        Some e \<Rightarrow> Some (''failed to create in-cluster config: '' @ e)
      | None \<Rightarrow>
          (case NewForConfig_err w of
             Some e \<Rightarrow> Some (''failed to create kubernetes client: '' @ e)
           | None \<Rightarrow> None))"

definition Data_lookup :: "Secret \<Rightarrow> string \<Rightarrow> string option" where
  "Data_lookup s k = (case Data s of None \<Rightarrow> None | Some d \<Rightarrow> d k)"

text \<open>The Go result \<^verbatim>\<open>(string, error)\<close> of the next function is kept as a pair.\<close>

definition getAccessUrlFromSecret :: "globals \<Rightarrow> world \<Rightarrow> world \<times> (string \<times> err option)" where
  "getAccessUrlFromSecret g w =
     (if secretName g = '''' \<or> secretNamespace g = '''' then (w, ('''', None))
      else
        (case Secrets_Get w (secretNamespace g) (secretName g) of
           (w1, Inl e) \<Rightarrow>
             (logw WarnLevel (Some e) ''failed to get secret, will try setup token'' w1,
              ('''', None))
         | (w1, Inr secret) \<Rightarrow>
             (case Data_lookup secret ''access_url'' of
                Some accessUrlStr \<Rightarrow>
                  (if HasPrefix accessUrlStr ''http://'' \<or> HasPrefix accessUrlStr ''https://''
                   then (logw InfoLevel None ''found valid access URL in secret'' w1,
                         (accessUrlStr, None))
                   else (logw WarnLevel None
                           (''invalid access URL in secret: '' @ accessUrlStr) w1,
                         ('''', None)))
              | None \<Rightarrow> (w1, ('''', None)))))"

definition saveAccessUrlToSecret :: "globals \<Rightarrow> world \<Rightarrow> string \<Rightarrow> world \<times> err option" where
  "saveAccessUrlToSecret g w accessUrl' =
     (if secretName g = '''' \<or> secretNamespace g = ''''
      then (logw WarnLevel None
              ''secret name or namespace not provided, cannot save access URL'' w, None)
      else
        (case Secrets_Get w (secretNamespace g) (secretName g) of
           (w1, Inl e) \<Rightarrow> (w1, Some (''failed to get secret for update: '' @ e))
         | (w1, Inr secret) \<Rightarrow>
             (let d = (case Data secret of None \<Rightarrow> Map.empty | Some d \<Rightarrow> d);
                  secret' = secret\<lparr>Data := Some (d(''access_url'' \<mapsto> accessUrl'))\<rparr>
              in case Secrets_Update w1 (secretNamespace g) (secretName g) secret' of
                   (w2, Some e) \<Rightarrow>
                     (w2, Some (''failed to update secret with access URL: '' @ e))
                 | (w2, None) \<Rightarrow>
                     (logw InfoLevel None ''successfully saved access URL to secret'' w2,
                      None))))"

definition createClientAndGetAccessUrl ::
  "library \<Rightarrow> world \<Rightarrow> string \<Rightarrow> world \<times> (err + string)" where
  "createClientAndGetAccessUrl L w setupToken' =
     (case base64_DecodeString L setupToken' of
        Inl e \<Rightarrow> (w, Inl (''error decoding base64 setupToken: '' @ e))
      | Inr claimUrl \<Rightarrow>
          (case http_NewRequest_err L claimUrl of
             Some e \<Rightarrow> (w, Inl (''error creating request: '' @ e))
           | None \<Rightarrow>
               (let w1 = emit (HttpPost claimUrl) w in
                case http_response w claimUrl of
                  Inl e \<Rightarrow> (w1, Inl (''error requesting access url: '' @ e))
                | Inr (StatusCode, body) \<Rightarrow>
                    (case body of
                       Inl e \<Rightarrow> (w1, Inl (''error getting access url: '' @ e))
                     | Inr accessUrlBytes \<Rightarrow>
                         (if StatusCode \<noteq> 200
                          then (w1, Inl (''setup token claim failed with status ''
                                  @ show_int StatusCode @ '': '' @ accessUrlBytes))
                          else (w1, Inr accessUrlBytes))))))"

text \<open>
  \<^verbatim>\<open>log.Fatal()...Msg\<close> writes the entry and ends the process: a function that can
  reach it returns the world and \<open>None\<close> when the process has ended there.
\<close>

definition fatal :: "err option \<Rightarrow> string \<Rightarrow> world \<Rightarrow> world \<times> 'a option" where
  "fatal e m w = (logw FatalLevel e m w, None)"

definition and_then ::
  "world \<times> 'a option \<Rightarrow> ('a \<Rightarrow> world \<Rightarrow> world \<times> 'b option) \<Rightarrow> world \<times> 'b option" where
  "and_then r f = (case r of (w, None) \<Rightarrow> (w, None) | (w, Some a) \<Rightarrow> f a w)"

text \<open>
  \<^verbatim>\<open>parseConfig\<close>, in the order of its statements, one definition per block.
  \<^verbatim>\<open>logger.SetDebug\<close> changes what the logger prints and nothing else; the trace
  records every call to the logger, so it has no counterpart here.
\<close>

definition parseConfig_debug :: "globals \<Rightarrow> world \<Rightarrow> world \<times> globals option" where
  "parseConfig_debug g w =
     (if debug g
      then (logw DebugLevel None (''starting, args: `'' @ Join (args g) '' '' @ ''`'') w,
            Some g)
      else (w, Some g))"

definition parseConfig_secret :: "globals \<Rightarrow> world \<Rightarrow> world \<times> globals option" where
  "parseConfig_secret g w =
     (if secretName g \<noteq> '''' \<and> secretNamespace g \<noteq> '''' then
        (case initKubernetesClient w of
           Some e \<Rightarrow> fatal (Some e) ''failed to initialize kubernetes client'' w
         | None \<Rightarrow>
             (case getAccessUrlFromSecret g w of
                (w1, (storedAccessUrl, Some e)) \<Rightarrow>
                  (logw WarnLevel (Some e) ''failed to get access URL from secret'' w1, Some g)
              | (w1, (storedAccessUrl, None)) \<Rightarrow>
                  (if storedAccessUrl \<noteq> ''''
                   then (logw InfoLevel None ''using access URL from secret'' w1,
                         Some (g\<lparr>accessUrl := storedAccessUrl\<rparr>))
                   else (w1, Some g))))
      else (w, Some g))"

definition parseConfig_file :: "library \<Rightarrow> globals \<Rightarrow> world \<Rightarrow> world \<times> globals option" where
  "parseConfig_file L g w =
     (if accessUrlVolatileFile g \<noteq> '''' then
        (case ReadAndDeleteAccessURLFile L w (accessUrlVolatileFile g) of
           (w1, Inl e) \<Rightarrow> fatal (Some e) ''failed to read AccessUrl config'' w1
         | (w1, Inr url) \<Rightarrow> (w1, Some (g\<lparr>accessUrl := url\<rparr>)))
      else (w, Some g))"

definition parseConfig_required :: "globals \<Rightarrow> world \<Rightarrow> world \<times> globals option" where
  "parseConfig_required g w =
     (if accessUrl g = '''' \<and> setupToken g = ''''
      then fatal None ''Access URL or Setup Token required'' w
      else if accessUrl g \<noteq> '''' \<and> setupToken g \<noteq> ''''
      then (logw WarnLevel None
              ''access URL and setup token provided, ignoring setup token.'' w, Some g)
      else (w, Some g))"

definition parseConfig_interval :: "library \<Rightarrow> globals \<Rightarrow> world \<Rightarrow> world \<times> globals option" where
  "parseConfig_interval L g w =
     (case time_ParseDuration L (duration g) of
        Inl e \<Rightarrow> fatal (Some e) ''error parsing duration'' w
      | Inr updIval \<Rightarrow> (w, Some (g\<lparr>updateInterval := updIval\<rparr>)))"

definition set_client :: "err + SimplefinClient \<Rightarrow> globals \<Rightarrow> world \<Rightarrow> world \<times> globals option" where
  "set_client r g w =
     (case r of
        Inl e \<Rightarrow> fatal (Some e) ''failed to initialize simplefin client'' w
      | Inr c \<Rightarrow> (w, Some (g\<lparr>client := Some c\<rparr>)))"

definition parseConfig_client :: "library \<Rightarrow> globals \<Rightarrow> world \<Rightarrow> world \<times> globals option" where
  "parseConfig_client L g w =
     (if accessUrl g \<noteq> '''' then set_client (NewSimplefinClient L (accessUrl g)) g w
      else
        (case createClientAndGetAccessUrl L w (setupToken g) of
           (w1, Inl clientErr) \<Rightarrow>
             fatal (Some clientErr) ''failed to create client from setup token'' w1
         | (w1, Inr newAccessUrl) \<Rightarrow>
             (let w2 =
                (if secretName g \<noteq> '''' \<and> secretNamespace g \<noteq> '''' then
                   (case saveAccessUrlToSecret g w1 newAccessUrl of
                      (w', Some saveErr) \<Rightarrow>
                        logw WarnLevel (Some saveErr) ''failed to save access URL to secret'' w'
                    | (w', None) \<Rightarrow>
                        logw InfoLevel None ''successfully saved new access URL to secret'' w')
                 else w1)
              in set_client (NewSimplefinClient L newAccessUrl) g w2)))"

definition parseConfig_mappings :: "library \<Rightarrow> globals \<Rightarrow> world \<Rightarrow> world \<times> globals option" where
  "parseConfig_mappings L g w =
     (case LoadAccountMappings L w (accountMappingsFile g) of
        (w1, Inl e) \<Rightarrow> fatal (Some e) ''failed to load account mappings'' w1
      | (w1, Inr am) \<Rightarrow>
          (if length (Mappings am) > 0
           then logw InfoLevel None
                  (''loaded '' @ show_nat (length (Mappings am)) @ '' account mappings'') w1
           else w1,
           Some (g\<lparr>accountMappings := Some am\<rparr>)))"

definition parseConfig :: "library \<Rightarrow> globals \<Rightarrow> world \<Rightarrow> world \<times> globals option" where
  "parseConfig L g w =
     and_then (and_then (and_then (and_then (and_then (and_then
       (parseConfig_debug g w)
       parseConfig_secret)
       (parseConfig_file L))
       parseConfig_required)
       (parseConfig_interval L))
       (parseConfig_client L))
       (parseConfig_mappings L)"

definition startExporterServer :: "globals \<Rightarrow> world \<Rightarrow> world" where
  "startExporterServer g w = emit (ListenAndServe (httpPort g)) w"

text \<open>
  \<^verbatim>\<open>main\<close> up to its loop. \<^verbatim>\<open>accountMappings\<close> is a pointer that
  \<^verbatim>\<open>parseConfig\<close> has set whenever it returns (lemma \<open>parseConfig_sets_mappings\<close>
  below), so the exporter holds the configuration itself; the branch for \<^verbatim>\<open>nil\<close>
  is never taken.
\<close>

definition main_startup ::
  "library \<Rightarrow> globals \<Rightarrow> world \<Rightarrow> world \<times> (globals \<times> 'v Exporter) option" where
  "main_startup L g w =
     and_then (parseConfig L g w) (\<lambda>g1 w1.
       case accountMappings g1 of
         None \<Rightarrow> (w1, None)
       | Some am \<Rightarrow>
           (let exporter = NewExporter am;
                w2 = startExporterServer g1 w1;
                w3 = logw InfoLevel None
                       (''update interval: '' @ Duration_String L (updateInterval g1)) w2
            in (w3, Some (g1, exporter))))"

text \<open>
  One turn of the loop of \<^verbatim>\<open>main\<close>. What \<^verbatim>\<open>client.GetAccounts\<close> returns in this
  turn, and the text of the time the turn took, are given; the \<^verbatim>\<open>for\<close> loop never
  ends, and \<open>poll_loop\<close> runs its first turns, one for each element of the list. The
  sleep between two turns is time that passes and changes nothing of the state.
\<close>

definition poll_iteration ::
  "'v strconv \<Rightarrow> globals \<Rightarrow> (err + Accounts) \<times> string \<Rightarrow> 'v Exporter \<times> world
    \<Rightarrow> 'v Exporter \<times> world" where
  "poll_iteration S g fetched st =
     (let (exporter, w) = st;
          w1 = logw InfoLevel None ''polling account data'' w;
          (exporter', w2) =
            (case fst fetched of
               Inl e \<Rightarrow> (exporter, logw ErrorLevel (Some e) ''failed to fetch accounts'' w1)
             | Inr accounts \<Rightarrow>
                 (let w' = (if debug g then emit (PrettyPrint (Accounts accounts)) w1 else w1);
                      ((e', tr'), _) = Export S (exporter, trace w') accounts
                  in (e', w'\<lparr>trace := tr'\<rparr>)))
      in (exporter', logw InfoLevel None (''done, took '' @ snd fetched) w2))"

fun poll_loop ::
  "'v strconv \<Rightarrow> globals \<Rightarrow> ((err + Accounts) \<times> string) list \<Rightarrow> 'v Exporter \<times> world
    \<Rightarrow> 'v Exporter \<times> world" where
  "poll_loop S g [] st = st"
| "poll_loop S g (fetched # rest) st = poll_loop S g rest (poll_iteration S g fetched st)"

section \<open>Auxiliary definitions for the proofs\<close>

text \<open>
  What one record adds to each gauge family, as a map that overrides the family: it
  depends on the record, the policy and the number parser only, never on the gauges.
\<close>

definition balance_delta :: "'v strconv \<Rightarrow> AccountMappingConfig \<Rightarrow> Account \<Rightarrow> 'v GaugeVec" where
  "balance_delta S cfg a =
     (if IsAccountIgnored cfg (ID a) then Map.empty
      else case ParseFloat32 S (Balance a) of
             Inl _ \<Rightarrow> Map.empty
           | Inr v \<Rightarrow>
               [[Domain' (Org a), GetAccountNameMapping cfg (ID a) (Name a), ID a, Currency a]
                  \<mapsto> v])"

definition available_delta :: "'v strconv \<Rightarrow> AccountMappingConfig \<Rightarrow> Account \<Rightarrow> 'v GaugeVec" where
  "available_delta S cfg a =
     (if IsAccountIgnored cfg (ID a) then Map.empty
      else case ParseFloat32 S (AvailableBalance a) of
             Inl _ \<Rightarrow> Map.empty
           | Inr v \<Rightarrow>
               [[Domain' (Org a), GetAccountNameMapping cfg (ID a) (Name a), ID a, Currency a]
                  \<mapsto> v])"

definition updated_delta :: "'v strconv \<Rightarrow> AccountMappingConfig \<Rightarrow> Account \<Rightarrow> 'v GaugeVec" where
  "updated_delta S cfg a =
     (if IsAccountIgnored cfg (ID a) then Map.empty
      else [[Domain' (Org a), GetAccountNameMapping cfg (ID a) (Name a), ID a]
              \<mapsto> float64 S (BalanceDate a)])"

fun deltas :: "(Account \<Rightarrow> 'v GaugeVec) \<Rightarrow> Account list \<Rightarrow> 'v GaugeVec" where
  "deltas d [] = Map.empty"
| "deltas d (a # as) = d a ++ deltas d as"

subsection \<open>Concrete inputs\<close>

text \<open>
  The scenario of the specification: a policy that names account A1 "Checking" and
  ignores A2, and records of the bank \<^verbatim>\<open>bank.example\<close>. The number parser of the
  scenario knows the two balances of the scenario and rejects every other text.
\<close>

definition demo_strconv :: "real strconv" where
  "demo_strconv =
     \<lparr> ParseFloat32 = (\<lambda>s. if s = ''100.50'' then Inr 100.5
                            else if s = ''90.00'' then Inr 90
                            else Inl ''invalid syntax''),
       float64 = real_of_int \<rparr>"

definition demo_policy :: AccountMappingConfig where
  "demo_policy =
     \<lparr> Mappings = [\<lparr>AccountID = ''A1'', CustomName = ''Checking''\<rparr>],
       IgnoreList = [''A2''] \<rparr>"

definition demo_account :: "string \<Rightarrow> string \<Rightarrow> string \<Rightarrow> Account" where
  "demo_account i bal avail =
     \<lparr> Org = \<lparr>Domain' = ''bank.example''\<rparr>, ID = i, Name = ''Everyday'', Currency = ''USD'',
       Balance = bal, AvailableBalance = avail, BalanceDate = 1700000000 \<rparr>"

definition demo_snapshot :: Accounts where
  "demo_snapshot =
     \<lparr> Accounts = [demo_account ''A1'' ''100.50'' ''90.00'', demo_account ''A2'' ''7'' ''7''] \<rparr>"

text \<open>
  A world with nothing in it (no cluster fault, no secret, no file, a network that
  answers no request), a library that accepts nothing but the duration \<^verbatim>\<open>1h\<close>, and
  the flags at their defaults; the concrete inputs below change what they need.
\<close>

definition demo_world :: world where
  "demo_world =
     \<lparr> InClusterConfig_err = None, NewForConfig_err = None, secrets = Map.empty,
       Get_err = None, Update_err = None, files = Map.empty,
       http_response = (\<lambda>url. Inl ''connection refused''), trace = [] \<rparr>"

definition demo_library :: library where
  "demo_library =
     \<lparr> base64_DecodeString =
         (\<lambda>s. if s = ''aHR0cHM6Ly9icmlkZ2UuZXhhbXBsZS9jbGFpbS8x''
              then Inr ''https://bridge.example/claim/1''
              else Inl ''illegal base64 data at input byte 0''),
       http_NewRequest_err = (\<lambda>url. None),
       url_Parse_String = (\<lambda>s. if s = ''%'' then Inl ''invalid URL escape'' else Inr s),
       time_ParseDuration =
         (\<lambda>s. if s = ''1h'' then Inr 3600000000000 else Inl ''invalid duration''),
       Duration_String = (\<lambda>d. ''1h0m0s''),
       json_Unmarshal = (\<lambda>s. Inl ''unexpected end of JSON input''),
       NewSimplefinClient_err = (\<lambda>url. None) \<rparr>"

definition demo_globals :: globals where
  "demo_globals =
     \<lparr> setupToken = '''', accessUrl = '''', accessUrlVolatileFile = '''', debug = False,
       httpPort = 8000, duration = ''1h'', updateInterval = 0, secretName = '''',
       secretNamespace = '''', accountMappingsFile = '''', args = [], client = None,
       accountMappings = None \<rparr>"

definition token_globals :: globals where
  "token_globals =
     demo_globals\<lparr> setupToken := ''aHR0cHM6Ly9icmlkZ2UuZXhhbXBsZS9jbGFpbS8x'',
                   secretName := ''simplefin'', secretNamespace := ''monitoring'' \<rparr>"

text \<open>
  A first run: the secret exists and holds no data yet, and the bridge answers the
  claim with the given status and body.
\<close>

definition first_run_world :: "int \<Rightarrow> string \<Rightarrow> world" where
  "first_run_world status body =
     demo_world\<lparr> secrets := [(''monitoring'', ''simplefin'') \<mapsto> \<lparr>Data = None\<rparr>],
                 http_response :=
                   (\<lambda>url. if url = ''https://bridge.example/claim/1''
                          then Inr (status, Inr body) else Inl ''connection refused'') \<rparr>"

text \<open>The same first run in a cluster that lets the process read the secret, not write it.\<close>

definition forbidden_update_world :: world where
  "forbidden_update_world =
     (first_run_world 200 ''https://user:pw@bridge.example/simplefin'')
       \<lparr> Update_err := Some ''secrets simplefin is forbidden'' \<rparr>"

text \<open>A secret that holds a valid access URL, and a volatile file that holds another.\<close>

definition both_globals :: globals where
  "both_globals =
     demo_globals\<lparr> secretName := ''simplefin'', secretNamespace := ''monitoring'',
                   accessUrlVolatileFile := ''/run/access-url'' \<rparr>"

definition both_world :: world where
  "both_world =
     demo_world\<lparr>
       secrets := [(''monitoring'', ''simplefin'') \<mapsto>
                    \<lparr>Data = Some [''access_url'' \<mapsto> ''https://user:pw@store.example/simplefin'']\<rparr>],
       files := [''/run/access-url'' \<mapsto>
                  \<lparr>content = ''https://user:pw@file.example/simplefin'', read_error = None,
                    remove_error = None\<rparr>] \<rparr>"

text \<open>A secret whose \<^verbatim>\<open>access_url\<close> holds the text of an error, not a URL.\<close>

definition stale_store_world :: world where
  "stale_store_world =
     demo_world\<lparr>
       secrets := [(''monitoring'', ''simplefin'') \<mapsto>
                    \<lparr>Data = Some [''access_url'' \<mapsto> ''Forbidden'']\<rparr>] \<rparr>"

definition file_globals :: globals where
  "file_globals = demo_globals\<lparr> accessUrlVolatileFile := ''/run/access-url'' \<rparr>"

definition file_world :: world where
  "file_world =
     demo_world\<lparr>
       files := [''/run/access-url'' \<mapsto>
                  \<lparr>content = ''https://user:pw@file.example/simplefin'', read_error = None,
                    remove_error = None\<rparr>] \<rparr>"

text \<open>A volatile file whose content does not parse; one that cannot be removed.\<close>

definition unparseable_file_world :: world where
  "unparseable_file_world =
     demo_world\<lparr>
       files := [''/run/access-url'' \<mapsto>
                  \<lparr>content = ''%'', read_error = None, remove_error = None\<rparr>] \<rparr>"

definition undeletable_file_world :: world where
  "undeletable_file_world =
     demo_world\<lparr>
       files := [''/run/access-url'' \<mapsto>
                  \<lparr>content = ''https://user:pw@file.example/simplefin'', read_error = None,
                    remove_error = Some ''read-only file system''\<rparr>] \<rparr>"

subsection \<open>Views of the world and of the variables, and parts of \<^verbatim>\<open>parseConfig\<close>\<close>

definition is_secret_update :: "event \<Rightarrow> bool" where
  "is_secret_update ev = (case ev of SecretUpdate _ _ \<Rightarrow> True | _ \<Rightarrow> False)"

definition is_listen :: "event \<Rightarrow> bool" where
  "is_listen ev = (case ev of ListenAndServe _ \<Rightarrow> True | _ \<Rightarrow> False)"

text \<open>The part of the world that no statement of the program changes.\<close>

definition static ::
  "world \<Rightarrow> err option \<times> err option \<times> err option \<times> err option
     \<times> (string \<Rightarrow> err + (int \<times> (err + string)))" where
  "static w =
     (InClusterConfig_err w, NewForConfig_err w, Get_err w, Update_err w, http_response w)"

text \<open>The secrets and the writes attempted on them; the starts of the metrics server.\<close>

definition store_view :: "world \<Rightarrow> (string \<times> string \<rightharpoonup> Secret) \<times> event list" where
  "store_view w = (secrets w, filter is_secret_update (trace w))"

definition served :: "world \<Rightarrow> event list" where
  "served w = filter is_listen (trace w)"

text \<open>The variables that \<^verbatim>\<open>parseConfig\<close> only reads: all but the four it assigns.\<close>

definition flags :: "globals \<Rightarrow> globals" where
  "flags g =
     g\<lparr>accessUrl := '''', updateInterval := 0, client := None, accountMappings := None\<rparr>"

definition ends_fatal :: "world \<Rightarrow> bool" where
  "ends_fatal w = (case rev (trace w) of Log FatalLevel _ _ # _ \<Rightarrow> True | _ \<Rightarrow> False)"

text \<open>
  \<^verbatim>\<open>parseConfig\<close> up to the block that creates the client; from the block that reads
  the volatile file on; and from the check that follows that block on.
\<close>

definition before_client :: "library \<Rightarrow> globals \<Rightarrow> world \<Rightarrow> world \<times> globals option" where
  "before_client L g w =
     and_then (and_then (and_then (and_then
       (parseConfig_debug g w)
       parseConfig_secret)
       (parseConfig_file L))
       parseConfig_required)
       (parseConfig_interval L)"

definition after_secret :: "library \<Rightarrow> globals \<Rightarrow> world \<Rightarrow> world \<times> globals option" where
  "after_secret L g w =
     and_then (and_then (and_then (and_then
       (parseConfig_file L g w)
       parseConfig_required)
       (parseConfig_interval L))
       (parseConfig_client L))
       (parseConfig_mappings L)"

definition after_file :: "library \<Rightarrow> globals \<Rightarrow> world \<Rightarrow> world \<times> globals option" where
  "after_file L g w =
     and_then (and_then (and_then
       (parseConfig_required g w)
       (parseConfig_interval L))
       (parseConfig_client L))
       (parseConfig_mappings L)"

section \<open>The exporter: what one export does to the gauges\<close>

lemma export_account_mappings:
  "AccountMappings (fst (export_account S a st)) = AccountMappings (fst st)"
  by (cases st) (simp add: export_account_def Let_def split: sum.splits prod.splits)

lemma export_account_balances:
  "balances (fst (export_account S a (e, tr))) =
     balances e ++ balance_delta S (AccountMappings e) a"
  by (simp add: export_account_def balance_delta_def WithLabelValues_Set_def Let_def
      split: sum.splits prod.splits)

lemma export_account_available:
  "availableBalances (fst (export_account S a (e, tr))) =
     availableBalances e ++ available_delta S (AccountMappings e) a"
  by (simp add: export_account_def available_delta_def WithLabelValues_Set_def Let_def
      split: sum.splits prod.splits)

lemma export_account_updated:
  "last_updated (fst (export_account S a (e, tr))) =
     last_updated e ++ updated_delta S (AccountMappings e) a"
  by (simp add: export_account_def updated_delta_def WithLabelValues_Set_def Let_def
      split: sum.splits prod.splits)

lemma export_range_mappings:
  "AccountMappings (fst (export_range S as st)) = AccountMappings (fst st)"
  by (induction as arbitrary: st) (simp_all add: export_account_mappings)

text \<open>
  A gauge family after the loop is the family before it, overridden by the records'
  contributions in the order of the snapshot.
\<close>

lemma export_range_family:
  assumes step:
    "\<And>a e tr. fam (fst (export_account S a (e, tr))) = fam e ++ d (AccountMappings e) a"
  shows "fam (fst (export_range S as (e, tr))) = fam e ++ deltas (d (AccountMappings e)) as"
proof (induction as arbitrary: e tr)
  case Nil
  show ?case by simp
next
  case (Cons a as)
  obtain e1 tr1 where st: "export_account S a (e, tr) = (e1, tr1)"
    by (cases "export_account S a (e, tr)")
  have m: "AccountMappings e1 = AccountMappings e"
    using export_account_mappings [of S a "(e, tr)"] st by simp
  have b: "fam e1 = fam e ++ d (AccountMappings e) a"
    using step [of a e tr] st by simp
  show ?case
    by (simp add: st Cons.IH m b)
qed

lemmas export_range_balances =
  export_range_family [where fam = balances and d = "balance_delta S",
    OF export_account_balances] for S

lemmas export_range_available =
  export_range_family [where fam = availableBalances and d = "available_delta S",
    OF export_account_available] for S

lemmas export_range_updated =
  export_range_family [where fam = last_updated and d = "updated_delta S",
    OF export_account_updated] for S

lemma map_add_twice: "(m ++ d) ++ d = m ++ d"
  by (rule ext) (simp add: map_add_def split: option.splits)

lemma export_range_twice:
  assumes fam:
    "\<And>as e tr. fam (fst (export_range S as (e, tr))) = fam e ++ deltas (d (AccountMappings e)) as"
  shows "fam (fst (export_range S as (export_range S as st))) = fam (fst (export_range S as st))"
proof -
  obtain e tr where st: "st = (e, tr)" by (cases st)
  obtain e1 tr1 where r: "export_range S as (e, tr) = (e1, tr1)"
    by (cases "export_range S as (e, tr)")
  have m: "AccountMappings e1 = AccountMappings e"
    using export_range_mappings [of S as "(e, tr)"] r by simp
  have "fam e1 = fam e ++ deltas (d (AccountMappings e)) as"
    using fam [of as e tr] r by simp
  moreover have "fam (fst (export_range S as (e1, tr1))) = fam e1 ++ deltas (d (AccountMappings e)) as"
    using fam [of as e1 tr1] m by simp
  ultimately show ?thesis
    by (simp add: st r map_add_twice)
qed

text \<open>
  Claim C6. Export is idempotent: for every snapshot, policy and starting state of the
  gauges, exporting the same snapshot a second time leaves each of the three gauge
  families (balance, available balance, last updated) exactly as the first export left
  it. Setting a gauge overwrites the value of its label set and never adds to it.
\<close>

theorem Export_idempotent:
  "balances (fst (fst (Export S (fst (Export S st accounts)) accounts)))
     = balances (fst (fst (Export S st accounts)))
   \<and> availableBalances (fst (fst (Export S (fst (Export S st accounts)) accounts)))
     = availableBalances (fst (fst (Export S st accounts)))
   \<and> last_updated (fst (fst (Export S (fst (Export S st accounts)) accounts)))
     = last_updated (fst (fst (Export S st accounts)))"
  unfolding Export_def fst_conv
  using export_range_twice [where fam = balances and d = "balance_delta S",
          OF export_range_balances]
        export_range_twice [where fam = availableBalances and d = "available_delta S",
          OF export_range_available]
        export_range_twice [where fam = last_updated and d = "updated_delta S",
          OF export_range_updated]
  by blast

lemma deltas_empty: "(\<And>a. d a = Map.empty) \<Longrightarrow> deltas d as = Map.empty"
  by (induction as) simp_all

lemma export_account_errors:
  "length (filter is_error_log (snd (export_account (S\<lparr>ParseFloat32 := \<lambda>_. Inl err\<rparr>) a (e, tr))))
     = length (filter is_error_log tr)
       + (if IsAccountIgnored (AccountMappings e) (ID a) then 0 else 2)"
  by (simp add: export_account_def Let_def is_error_log_def)

lemma export_range_errors:
  "length (filter is_error_log (snd (export_range (S\<lparr>ParseFloat32 := \<lambda>_. Inl err\<rparr>) as (e, tr))))
     = length (filter is_error_log tr)
       + 2 * length (filter (\<lambda>a. \<not> IsAccountIgnored (AccountMappings e) (ID a)) as)"
proof (induction as arbitrary: e tr)
  case Nil
  show ?case by simp
next
  case (Cons a as)
  obtain e1 tr1 where st: "export_account (S\<lparr>ParseFloat32 := \<lambda>_. Inl err\<rparr>) a (e, tr) = (e1, tr1)"
    by (cases "export_account (S\<lparr>ParseFloat32 := \<lambda>_. Inl err\<rparr>) a (e, tr)")
  have m: "AccountMappings e1 = AccountMappings e"
    using export_account_mappings [of "S\<lparr>ParseFloat32 := \<lambda>_. Inl err\<rparr>" a "(e, tr)"] st by simp
  have n: "length (filter is_error_log tr1) = length (filter is_error_log tr)
       + (if IsAccountIgnored (AccountMappings e) (ID a) then 0 else 2)"
    using export_account_errors [where S = S and err = err and a = a and e = e and tr = tr] st by simp
  show ?case
    by (simp add: st Cons.IH m n)
qed

text \<open>
  Claim C10. \<^verbatim>\<open>Export\<close> never returns an error: for every snapshot, policy, number
  parser and starting state, its error result is \<^verbatim>\<open>nil\<close>. In particular with a
  parser that rejects every text: \<^verbatim>\<open>Export\<close> still returns \<^verbatim>\<open>nil\<close>, the balance
  and available-balance families are what they were, and the failures show in the log
  alone, two error entries for each record that is not ignored.
\<close>

theorem Export_returns_nil:
  "snd (Export S st accounts) = None
   \<and> balances (fst (fst (Export (S\<lparr>ParseFloat32 := \<lambda>_. Inl err\<rparr>) st accounts)))
       = balances (fst st)
   \<and> availableBalances (fst (fst (Export (S\<lparr>ParseFloat32 := \<lambda>_. Inl err\<rparr>) st accounts)))
       = availableBalances (fst st)
   \<and> length (filter is_error_log (snd (fst (Export (S\<lparr>ParseFloat32 := \<lambda>_. Inl err\<rparr>) st accounts))))
       = length (filter is_error_log (snd st))
         + 2 * length (filter (\<lambda>a. \<not> IsAccountIgnored (AccountMappings (fst st)) (ID a))
                         (Accounts accounts))"
proof -
  obtain e tr where st: "st = (e, tr)" by (cases st)
  let ?S = "S\<lparr>ParseFloat32 := \<lambda>_. Inl err\<rparr>"
  have b: "deltas (balance_delta ?S (AccountMappings e)) (Accounts accounts) = Map.empty"
    by (rule deltas_empty) (simp add: balance_delta_def)
  have a: "deltas (available_delta ?S (AccountMappings e)) (Accounts accounts) = Map.empty"
    by (rule deltas_empty) (simp add: available_delta_def)
  show ?thesis
    by (simp add: Export_def st export_range_balances export_range_available a b
        export_range_errors)
qed

subsection \<open>Ignored accounts\<close>

lemma deltas_ignored:
  assumes "\<And>a. dom (d a) \<subseteq>
      (if IsAccountIgnored cfg (ID a) then {} else {lvs. 2 < length lvs \<and> lvs ! 2 = ID a})"
    and "IsAccountIgnored cfg i"
    and "lvs ! 2 = i"
  shows "deltas d as lvs = None"
proof (induction as)
  case Nil
  show ?case by simp
next
  case (Cons a as)
  have "lvs \<notin> dom (d a)"
    using assms(1) [of a] assms(2,3) by (auto split: if_splits)
  then have "d a lvs = None" by blast
  with Cons show ?case by (simp add: map_add_def)
qed

lemma balance_delta_dom:
  "dom (balance_delta S cfg a) \<subseteq>
     (if IsAccountIgnored cfg (ID a) then {} else {lvs. 2 < length lvs \<and> lvs ! 2 = ID a})"
  by (auto simp: balance_delta_def split: sum.splits if_splits)

lemma available_delta_dom:
  "dom (available_delta S cfg a) \<subseteq>
     (if IsAccountIgnored cfg (ID a) then {} else {lvs. 2 < length lvs \<and> lvs ! 2 = ID a})"
  by (auto simp: available_delta_def split: sum.splits if_splits)

lemma updated_delta_dom:
  "dom (updated_delta S cfg a) \<subseteq>
     (if IsAccountIgnored cfg (ID a) then {} else {lvs. 2 < length lvs \<and> lvs ! 2 = ID a})"
  by (auto simp: updated_delta_def split: sum.splits if_splits)

lemma export_range_ignored:
  assumes "IsAccountIgnored (AccountMappings e) i" and "lvs ! 2 = i"
  shows "balances (fst (export_range S as (e, tr))) lvs = balances e lvs"
    and "availableBalances (fst (export_range S as (e, tr))) lvs = availableBalances e lvs"
    and "last_updated (fst (export_range S as (e, tr))) lvs = last_updated e lvs"
  using deltas_ignored [of "balance_delta S (AccountMappings e)", OF balance_delta_dom assms]
        deltas_ignored [of "available_delta S (AccountMappings e)", OF available_delta_dom assms]
        deltas_ignored [of "updated_delta S (AccountMappings e)", OF updated_delta_dom assms]
  by (simp_all add: export_range_balances export_range_available export_range_updated
      map_add_def)

lemma poll_iteration_ignored:
  assumes "IsAccountIgnored (AccountMappings e) i" and "lvs ! 2 = i"
  shows "AccountMappings (fst (poll_iteration S g fetched (e, w))) = AccountMappings e"
    and "balances (fst (poll_iteration S g fetched (e, w))) lvs = balances e lvs"
    and "availableBalances (fst (poll_iteration S g fetched (e, w))) lvs
           = availableBalances e lvs"
    and "last_updated (fst (poll_iteration S g fetched (e, w))) lvs = last_updated e lvs"
proof -
  show "AccountMappings (fst (poll_iteration S g fetched (e, w))) = AccountMappings e"
    using export_range_mappings [of S _ "(e, _)"]
    by (simp add: poll_iteration_def Export_def Let_def split: sum.splits prod.splits)
      (metis fst_conv)
  show "balances (fst (poll_iteration S g fetched (e, w))) lvs = balances e lvs"
    using export_range_ignored(1) [OF assms]
    by (simp add: poll_iteration_def Export_def Let_def split: sum.splits prod.splits)
      (metis fst_conv)
  show "availableBalances (fst (poll_iteration S g fetched (e, w))) lvs
          = availableBalances e lvs"
    using export_range_ignored(2) [OF assms]
    by (simp add: poll_iteration_def Export_def Let_def split: sum.splits prod.splits)
      (metis fst_conv)
  show "last_updated (fst (poll_iteration S g fetched (e, w))) lvs = last_updated e lvs"
    using export_range_ignored(3) [OF assms]
    by (simp add: poll_iteration_def Export_def Let_def split: sum.splits prod.splits)
      (metis fst_conv)
qed

lemma poll_loop_ignored:
  assumes "IsAccountIgnored (AccountMappings e) i" and "lvs ! 2 = i"
  shows "balances (fst (poll_loop S g polls (e, w))) lvs = balances e lvs
       \<and> availableBalances (fst (poll_loop S g polls (e, w))) lvs = availableBalances e lvs
       \<and> last_updated (fst (poll_loop S g polls (e, w))) lvs = last_updated e lvs"
  using assms(1)
proof (induction polls arbitrary: e w)
  case Nil
  show ?case by simp
next
  case (Cons fetched polls)
  obtain e1 w1 where st: "poll_iteration S g fetched (e, w) = (e1, w1)"
    by (cases "poll_iteration S g fetched (e, w)")
  have m: "AccountMappings e1 = AccountMappings e"
    using poll_iteration_ignored(1) [OF Cons.prems assms(2), of S g fetched w] st by simp
  have s: "balances e1 lvs = balances e lvs"
    "availableBalances e1 lvs = availableBalances e lvs"
    "last_updated e1 lvs = last_updated e lvs"
    using poll_iteration_ignored(2-4) [OF Cons.prems assms(2), of S g fetched w] st
    by simp_all
  have "IsAccountIgnored (AccountMappings e1) i" using Cons.prems m by simp
  from Cons.IH [OF this, of w1] show ?case by (simp add: st s)
qed

text \<open>
  Claim C7. For a record whose identifier is in the ignore list of the policy, the
  export step changes nothing of the exporter (no gauge of any family is created or
  set) and records one debug entry and no error. Further, no export of any snapshot,
  and no number of turns of the polling loop, with whatever each fetch returned,
  changes a series of any family whose \<^verbatim>\<open>account_id\<close> label is that identifier:
  after them the series is what it was before (absent, if it was absent).
\<close>

theorem ignored_account_touches_no_gauge:
  assumes "IsAccountIgnored (AccountMappings e) (ID accItem)"
  shows "export_account S accItem (e, tr)
           = (e, tr @ [Log DebugLevel None (msg_skipping accItem)])
       \<and> balances (fst (fst (Export S (e, tr) accounts))) [d, n, ID accItem, c]
           = balances e [d, n, ID accItem, c]
       \<and> availableBalances (fst (fst (Export S (e, tr) accounts))) [d, n, ID accItem, c]
           = availableBalances e [d, n, ID accItem, c]
       \<and> last_updated (fst (fst (Export S (e, tr) accounts))) [d, n, ID accItem]
           = last_updated e [d, n, ID accItem]
       \<and> snd (Export S (e, tr) accounts) = None
       \<and> balances (fst (poll_loop S g polls (e, w))) [d, n, ID accItem, c]
           = balances e [d, n, ID accItem, c]
       \<and> availableBalances (fst (poll_loop S g polls (e, w))) [d, n, ID accItem, c]
           = availableBalances e [d, n, ID accItem, c]
       \<and> last_updated (fst (poll_loop S g polls (e, w))) [d, n, ID accItem]
           = last_updated e [d, n, ID accItem]"
proof -
  have step: "export_account S accItem (e, tr)
      = (e, tr @ [Log DebugLevel None (msg_skipping accItem)])"
    using assms by (simp add: export_account_def)
  have k4: "[d, n, ID accItem, c] ! 2 = ID accItem" and k3: "[d, n, ID accItem] ! 2 = ID accItem"
    by simp_all
  note x4 = export_range_ignored [OF assms k4, of S "Accounts accounts" tr]
  note x3 = export_range_ignored [OF assms k3, of S "Accounts accounts" tr]
  note p4 = poll_loop_ignored [OF assms k4, of S g polls w]
  note p3 = poll_loop_ignored [OF assms k3, of S g polls w]
  show ?thesis
    using step x4(1,2) x3(3) p4 p3 by (simp add: Export_def)
qed

theorem ignored_account_touches_no_gauge_witness:
  "IsAccountIgnored (AccountMappings (NewExporter demo_policy :: real Exporter))
     (ID (demo_account ''A2'' ''7'' ''7''))
   \<and> export_account demo_strconv (demo_account ''A2'' ''7'' ''7'') (NewExporter demo_policy, [])
       = (NewExporter demo_policy,
          [Log DebugLevel None ''Skipping ignored account: Everyday (ID: A2)''])
   \<and> balances (fst (fst (Export demo_strconv (NewExporter demo_policy, []) demo_snapshot)))
        [''bank.example'', ''Everyday'', ''A2'', ''USD''] = None
   \<and> last_updated (fst (poll_loop demo_strconv demo_globals
        [(Inr demo_snapshot, ''1s''), (Inl ''timeout'', ''30s''), (Inr demo_snapshot, ''1s'')]
        (NewExporter demo_policy, demo_world)))
        [''bank.example'', ''Everyday'', ''A2''] = None"
proof -
  have h: "IsAccountIgnored (AccountMappings (NewExporter demo_policy :: real Exporter))
      (ID (demo_account ''A2'' ''7'' ''7''))"
    by (simp add: IsAccountIgnored_def NewExporter_def demo_policy_def demo_account_def)
  have i: "ID (demo_account ''A2'' ''7'' ''7'') = ''A2''"
    by (simp add: demo_account_def)
  show ?thesis
    using h
      ignored_account_touches_no_gauge [OF h, of demo_strconv "[]" demo_snapshot
        "''bank.example''" "''Everyday''" "''USD''" demo_globals
        "[(Inr demo_snapshot, ''1s''), (Inl ''timeout'', ''30s''), (Inr demo_snapshot, ''1s'')]"
        demo_world]
    by (simp add: i msg_skipping_def) (simp add: NewExporter_def demo_account_def)
qed

subsection \<open>A balance that does not parse\<close>

text \<open>
  The step for a record that is not ignored, whatever the two parses give: each gauge
  family is set from its own parse only, and \<^verbatim>\<open>last_updated\<close> is always set.
\<close>

lemma export_account_not_ignored:
  assumes "\<not> IsAccountIgnored (AccountMappings e) (ID a)"
  shows "export_account S a (e, tr) =
    (e\<lparr> balances := balances e ++ balance_delta S (AccountMappings e) a,
        availableBalances := availableBalances e ++ available_delta S (AccountMappings e) a,
        last_updated := last_updated e ++ updated_delta S (AccountMappings e) a \<rparr>,
     tr @ (case ParseFloat32 S (Balance a) of
             Inl err \<Rightarrow> [Log ErrorLevel (Some err) (msg_balance a)] | Inr _ \<Rightarrow> [])
        @ (case ParseFloat32 S (AvailableBalance a) of
             Inl err \<Rightarrow> [Log ErrorLevel (Some err) (msg_available a)] | Inr _ \<Rightarrow> []))"
  using assms
  by (simp add: export_account_def balance_delta_def available_delta_def updated_delta_def
      WithLabelValues_Set_def Let_def split: sum.splits)

text \<open>
  Claim C8. For a record that is not ignored, whose balance text does not parse and
  whose available-balance text parses: exporting it (the loop step, and \<^verbatim>\<open>Export\<close> of
  the snapshot that holds just this record) leaves the whole balance family as it was,
  sets the available-balance series of the record's labels to the parsed value, sets
  the \<^verbatim>\<open>last_updated\<close> series to the record's timestamp, adds exactly one entry to
  the log, an error for the balance field, and returns \<^verbatim>\<open>nil\<close>.
\<close>

theorem unparseable_balance_isolated:
  assumes "\<not> IsAccountIgnored (AccountMappings e) (ID accItem)"
    and "ParseFloat32 S (Balance accItem) = Inl err"
    and "ParseFloat32 S (AvailableBalance accItem) = Inr availBal"
  shows "export_account S accItem (e, tr) =
      (e\<lparr> availableBalances := (availableBalances e)
            ([Domain' (Org accItem),
              GetAccountNameMapping (AccountMappings e) (ID accItem) (Name accItem),
              ID accItem, Currency accItem] \<mapsto> availBal),
          last_updated := (last_updated e)
            ([Domain' (Org accItem),
              GetAccountNameMapping (AccountMappings e) (ID accItem) (Name accItem),
              ID accItem] \<mapsto> float64 S (BalanceDate accItem)) \<rparr>,
       tr @ [Log ErrorLevel (Some err) (msg_balance accItem)])
    \<and> Export S (e, tr) \<lparr>Accounts = [accItem]\<rparr> = (export_account S accItem (e, tr), None)
    \<and> balances (fst (export_account S accItem (e, tr))) = balances e
    \<and> filter is_error_log (snd (export_account S accItem (e, tr)))
        = filter is_error_log tr @ [Log ErrorLevel (Some err) (msg_balance accItem)]"
  using assms
  by (simp add: export_account_def Export_def WithLabelValues_Set_def Let_def is_error_log_def)

theorem unparseable_balance_isolated_witness:
  "\<not> IsAccountIgnored (AccountMappings (NewExporter demo_policy :: real Exporter))
       (ID (demo_account ''A1'' ''n/a'' ''90.00''))
   \<and> ParseFloat32 demo_strconv (Balance (demo_account ''A1'' ''n/a'' ''90.00''))
       = Inl ''invalid syntax''
   \<and> ParseFloat32 demo_strconv (AvailableBalance (demo_account ''A1'' ''n/a'' ''90.00''))
       = Inr 90
   \<and> Export demo_strconv (NewExporter demo_policy, [])
        \<lparr>Accounts = [demo_account ''A1'' ''n/a'' ''90.00'']\<rparr>
       = ((\<lparr> balances = Map.empty,
             availableBalances = [[''bank.example'', ''Checking'', ''A1'', ''USD''] \<mapsto> 90],
             last_updated = [[''bank.example'', ''Checking'', ''A1''] \<mapsto> 1700000000],
             AccountMappings = demo_policy \<rparr>,
           [Log ErrorLevel (Some ''invalid syntax'')
              ''Could not parse balance from bank.example - Everyday (ID: A1)'']), None)"
proof -
  have h1: "\<not> IsAccountIgnored (AccountMappings (NewExporter demo_policy :: real Exporter))
      (ID (demo_account ''A1'' ''n/a'' ''90.00''))"
    by (simp add: IsAccountIgnored_def NewExporter_def demo_policy_def demo_account_def)
  have h2: "ParseFloat32 demo_strconv (Balance (demo_account ''A1'' ''n/a'' ''90.00''))
      = Inl ''invalid syntax''"
    by (simp add: demo_strconv_def demo_account_def)
  have h3: "ParseFloat32 demo_strconv (AvailableBalance (demo_account ''A1'' ''n/a'' ''90.00''))
      = Inr 90"
    by (simp add: demo_strconv_def demo_account_def)
  show ?thesis
    using h1 h2 h3 unparseable_balance_isolated [OF h1 h2 h3, of "[]"]
    by (simp add: NewExporter_def msg_balance_def)
      (simp add: demo_account_def demo_policy_def demo_strconv_def GetAccountNameMapping_def)
qed

section \<open>\<^verbatim>\<open>parseConfig\<close>: sequencing, and what each block leaves unchanged\<close>

lemma and_then_None: "snd r = None \<Longrightarrow> and_then r f = (fst r, None)"
  by (cases r) (simp add: and_then_def)

lemma and_then_Some: "snd r = Some a \<Longrightarrow> and_then r f = f a (fst r)"
  by (cases r) (simp add: and_then_def)

lemma and_then_SomeE:
  assumes "and_then r f = (w', Some b)"
  obtains w1 a where "r = (w1, Some a)" and "f a w1 = (w', Some b)"
  using assms by (cases r) (auto simp: and_then_def split: option.splits)

lemma and_then_assoc:
  "and_then (and_then r f) h = and_then r (\<lambda>a w. and_then (f a w) h)"
  by (cases r) (simp add: and_then_def split: option.splits)

lemma and_then_keeps:
  assumes "\<And>a w. view (fst (f a w)) = view w"
  shows "view (fst (and_then r f)) = view (fst r)"
  using assms by (cases r) (simp add: and_then_def split: option.splits)

lemma and_then_globals_view:
  assumes "\<And>a. snd r = Some a \<Longrightarrow> v a = v g"
    and "\<And>a w b. snd (f a w) = Some b \<Longrightarrow> v b = v a"
    and "snd (and_then r f) = Some b"
  shows "v b = v g"
proof -
  obtain w1 where "and_then r f = (w1, Some b)"
    using assms(3) by (cases "and_then r f") simp
  then obtain w0 a where r: "r = (w0, Some a)" and f: "f a w0 = (w1, Some b)"
    by (rule and_then_SomeE)
  from r have "v a = v g" by (intro assms(1)) simp
  moreover from f have "v b = v a" by (intro assms(2) [of a w0]) simp
  ultimately show ?thesis by simp
qed

lemma and_then_fatal:
  assumes "snd r = None \<Longrightarrow> ends_fatal (fst r)"
    and "\<And>a w. snd (f a w) = None \<Longrightarrow> ends_fatal (fst (f a w))"
    and "snd (and_then r f) = None"
  shows "ends_fatal (fst (and_then r f))"
  using assms by (cases r) (auto simp: and_then_def split: option.splits)

lemma parseConfig_split:
  "parseConfig L g w =
     and_then (and_then (before_client L g w) (parseConfig_client L)) (parseConfig_mappings L)"
  by (simp add: parseConfig_def before_client_def)

lemma parseConfig_after_secret:
  "parseConfig L g w =
     and_then (and_then (parseConfig_debug g w) parseConfig_secret) (after_secret L)"
  unfolding parseConfig_def after_secret_def
  by (simp add: and_then_assoc)

lemma after_secret_file:
  "after_secret L g w = and_then (parseConfig_file L g w) (after_file L)"
  unfolding after_secret_def after_file_def by (simp add: and_then_assoc)

lemma debug_snd: "snd (parseConfig_debug g w) = Some g"
  by (simp add: parseConfig_debug_def)

lemma debug_then: "and_then (parseConfig_debug g w) f = f g (fst (parseConfig_debug g w))"
  by (rule and_then_Some) (rule debug_snd)

subsection \<open>The calls to the outside\<close>

lemma emit_simps [simp]:
  "static (emit ev w) = static w"
  "files (emit ev w) = files w"
  "secrets (emit ev w) = secrets w"
  "trace (emit ev w) = trace w @ [ev]"
  "http_response (emit ev w) = http_response w"
  by (simp_all add: static_def emit_def)

lemma logw_simps [simp]:
  "static (logw l e m w) = static w"
  "files (logw l e m w) = files w"
  "secrets (logw l e m w) = secrets w"
  "trace (logw l e m w) = trace w @ [Log l e m]"
  "http_response (logw l e m w) = http_response w"
  "served (logw l e m w) = served w"
  "store_view (logw l e m w) = store_view w"
  by (simp_all add: logw_def served_def store_view_def is_listen_def is_secret_update_def)

lemma fatal_simps [simp]:
  "fst (fatal e m w) = logw FatalLevel e m w"
  "snd (fatal e m w) = None"
  by (simp_all add: fatal_def)

lemma ends_fatal_logw [simp]: "ends_fatal (logw FatalLevel e m w)"
  by (simp add: ends_fatal_def)

lemma ends_fatal_iff: "ends_fatal w \<longleftrightarrow> (\<exists>tr e m. trace w = tr @ [Log FatalLevel e m])"
proof (cases "trace w" rule: rev_cases)
  case Nil
  then show ?thesis by (simp add: ends_fatal_def)
next
  case (snoc tr ev)
  then show ?thesis
    by (cases ev) (auto simp: ends_fatal_def split: level.splits)
qed

lemma static_fields:
  assumes "static w1 = static w"
  shows "InClusterConfig_err w1 = InClusterConfig_err w" "NewForConfig_err w1 = NewForConfig_err w"
    "Get_err w1 = Get_err w" "Update_err w1 = Update_err w" "http_response w1 = http_response w"
  using assms by (simp_all add: static_def)

lemma store_view_fields:
  "store_view w1 = store_view w \<Longrightarrow>
     secrets w1 = secrets w \<and>
     filter is_secret_update (trace w1) = filter is_secret_update (trace w)"
  by (simp add: store_view_def)

lemma ReadFile_keeps [simp]:
  "static (fst (os_ReadFile w p)) = static w"
  "served (fst (os_ReadFile w p)) = served w"
  "store_view (fst (os_ReadFile w p)) = store_view w"
  "files (fst (os_ReadFile w p)) = files w"
  by (simp_all add: os_ReadFile_def served_def store_view_def is_listen_def is_secret_update_def)

lemma Remove_keeps [simp]:
  "static (fst (os_Remove w p)) = static w"
  "served (fst (os_Remove w p)) = served w"
  "store_view (fst (os_Remove w p)) = store_view w"
  by (simp_all add: os_Remove_def static_def emit_def served_def store_view_def is_listen_def
      is_secret_update_def split: option.splits)

lemma Get_keeps [simp]:
  "static (fst (Secrets_Get w ns n)) = static w"
  "served (fst (Secrets_Get w ns n)) = served w"
  "store_view (fst (Secrets_Get w ns n)) = store_view w"
  "files (fst (Secrets_Get w ns n)) = files w"
  by (simp_all add: Secrets_Get_def served_def store_view_def is_listen_def is_secret_update_def)

lemma Update_keeps [simp]:
  "static (fst (Secrets_Update w ns n s)) = static w"
  "served (fst (Secrets_Update w ns n s)) = served w"
  "files (fst (Secrets_Update w ns n s)) = files w"
  by (simp_all add: Secrets_Update_def static_def emit_def served_def is_listen_def
      split: option.splits)

lemma RAD_keeps [simp]:
  "static (fst (ReadAndDeleteAccessURLFile L w p)) = static w"
  "served (fst (ReadAndDeleteAccessURLFile L w p)) = served w"
  "store_view (fst (ReadAndDeleteAccessURLFile L w p)) = store_view w"
  by (simp_all add: ReadAndDeleteAccessURLFile_def case_prod_unfold
      split: option.splits sum.splits)

lemma LoadAccountMappings_keeps [simp]:
  "static (fst (LoadAccountMappings L w p)) = static w"
  "served (fst (LoadAccountMappings L w p)) = served w"
  "store_view (fst (LoadAccountMappings L w p)) = store_view w"
  "files (fst (LoadAccountMappings L w p)) = files w"
  by (simp_all add: LoadAccountMappings_def case_prod_unfold split: option.splits sum.splits)

lemma getAccessUrl_keeps [simp]:
  "static (fst (getAccessUrlFromSecret g w)) = static w"
  "served (fst (getAccessUrlFromSecret g w)) = served w"
  "store_view (fst (getAccessUrlFromSecret g w)) = store_view w"
  "files (fst (getAccessUrlFromSecret g w)) = files w"
  by (simp_all add: getAccessUrlFromSecret_def case_prod_unfold split: option.splits sum.splits)

lemma saveAccessUrl_keeps [simp]:
  "static (fst (saveAccessUrlToSecret g w u)) = static w"
  "served (fst (saveAccessUrlToSecret g w u)) = served w"
  "files (fst (saveAccessUrlToSecret g w u)) = files w"
  by (simp_all add: saveAccessUrlToSecret_def case_prod_unfold Let_def
      split: option.splits sum.splits)

lemma createClient_keeps [simp]:
  "static (fst (createClientAndGetAccessUrl L w t)) = static w"
  "served (fst (createClientAndGetAccessUrl L w t)) = served w"
  "store_view (fst (createClientAndGetAccessUrl L w t)) = store_view w"
  "files (fst (createClientAndGetAccessUrl L w t)) = files w"
  by (simp_all add: createClientAndGetAccessUrl_def case_prod_unfold Let_def served_def
      store_view_def is_listen_def is_secret_update_def split: option.splits sum.splits)

lemma Secrets_Get_snd_cong:
  "static w1 = static w \<Longrightarrow> secrets w1 = secrets w \<Longrightarrow>
     snd (Secrets_Get w1 ns n) = snd (Secrets_Get w ns n)"
  by (auto simp: Secrets_Get_def static_def split: option.splits)

lemma getAccessUrl_snd_cong:
  "static w1 = static w \<Longrightarrow> secrets w1 = secrets w \<Longrightarrow>
     snd (getAccessUrlFromSecret g w1) = snd (getAccessUrlFromSecret g w)"
  using Secrets_Get_snd_cong [of w1 w "secretNamespace g" "secretName g"]
  by (simp add: getAccessUrlFromSecret_def case_prod_unfold split: sum.splits option.splits)


lemma RAD_snd_cong:
  "files w1 = files w \<Longrightarrow>
     snd (ReadAndDeleteAccessURLFile L w1 p) = snd (ReadAndDeleteAccessURLFile L w p)"
  by (simp add: ReadAndDeleteAccessURLFile_def os_ReadFile_def os_Remove_def case_prod_unfold
      split: sum.splits option.splits)

subsection \<open>The blocks of \<^verbatim>\<open>parseConfig\<close>\<close>

lemma debug_keeps:
  "static (fst (parseConfig_debug g w)) = static w"
  "served (fst (parseConfig_debug g w)) = served w"
  "store_view (fst (parseConfig_debug g w)) = store_view w"
  "files (fst (parseConfig_debug g w)) = files w"
  by (simp_all add: parseConfig_debug_def)

lemma secret_keeps:
  "static (fst (parseConfig_secret g w)) = static w"
  "served (fst (parseConfig_secret g w)) = served w"
  "store_view (fst (parseConfig_secret g w)) = store_view w"
  "files (fst (parseConfig_secret g w)) = files w"
  by (simp_all add: parseConfig_secret_def case_prod_unfold split: option.splits)

lemma file_keeps:
  "static (fst (parseConfig_file L g w)) = static w"
  "served (fst (parseConfig_file L g w)) = served w"
  "store_view (fst (parseConfig_file L g w)) = store_view w"
  by (simp_all add: parseConfig_file_def case_prod_unfold split: sum.splits)

lemma required_keeps:
  "static (fst (parseConfig_required g w)) = static w"
  "served (fst (parseConfig_required g w)) = served w"
  "store_view (fst (parseConfig_required g w)) = store_view w"
  "files (fst (parseConfig_required g w)) = files w"
  by (simp_all add: parseConfig_required_def)

lemma interval_keeps:
  "static (fst (parseConfig_interval L g w)) = static w"
  "served (fst (parseConfig_interval L g w)) = served w"
  "store_view (fst (parseConfig_interval L g w)) = store_view w"
  "files (fst (parseConfig_interval L g w)) = files w"
  by (simp_all add: parseConfig_interval_def split: sum.splits)

lemma set_client_keeps [simp]:
  "static (fst (set_client r g w)) = static w"
  "served (fst (set_client r g w)) = served w"
  "store_view (fst (set_client r g w)) = store_view w"
  "files (fst (set_client r g w)) = files w"
  by (simp_all add: set_client_def split: sum.splits)

lemma client_keeps:
  "static (fst (parseConfig_client L g w)) = static w"
  "served (fst (parseConfig_client L g w)) = served w"
  "files (fst (parseConfig_client L g w)) = files w"
  by (simp_all add: parseConfig_client_def case_prod_unfold Let_def split: sum.splits option.splits)

lemma mappings_keeps:
  "static (fst (parseConfig_mappings L g w)) = static w"
  "served (fst (parseConfig_mappings L g w)) = served w"
  "store_view (fst (parseConfig_mappings L g w)) = store_view w"
  "files (fst (parseConfig_mappings L g w)) = files w"
  by (simp_all add: parseConfig_mappings_def case_prod_unfold split: sum.splits)

lemma parseConfig_keeps:
  "static (fst (parseConfig L g w)) = static w"
  "served (fst (parseConfig L g w)) = served w"
  unfolding parseConfig_def
  by (simp_all add: and_then_keeps [where view = static] and_then_keeps [where view = served]
      debug_keeps secret_keeps file_keeps required_keeps interval_keeps client_keeps
      mappings_keeps)

lemma before_client_keeps:
  "static (fst (before_client L g w)) = static w"
  "served (fst (before_client L g w)) = served w"
  "store_view (fst (before_client L g w)) = store_view w"
  unfolding before_client_def
  by (simp_all add: and_then_keeps [where view = static] and_then_keeps [where view = served]
      and_then_keeps [where view = store_view]
      debug_keeps secret_keeps file_keeps required_keeps interval_keeps)

lemma before_file_keeps:
  "files (fst (and_then (parseConfig_debug g w) parseConfig_secret)) = files w"
  "static (fst (and_then (parseConfig_debug g w) parseConfig_secret)) = static w"
  "store_view (fst (and_then (parseConfig_debug g w) parseConfig_secret)) = store_view w"
  by (simp_all add: and_then_keeps [where view = files] and_then_keeps [where view = static]
      and_then_keeps [where view = store_view] debug_keeps secret_keeps)

lemma after_file_keeps:
  "files (fst (after_file L g w)) = files w"
  unfolding after_file_def
  by (simp add: and_then_keeps [where view = files] required_keeps interval_keeps client_keeps
      mappings_keeps)

lemma debug_flags: "snd (parseConfig_debug g w) = Some g' \<Longrightarrow> g' = g"
  by (simp add: parseConfig_debug_def split: if_splits)

lemma secret_flags: "snd (parseConfig_secret g w) = Some g' \<Longrightarrow> flags g' = flags g"
  by (auto simp: parseConfig_secret_def flags_def case_prod_unfold split: if_splits option.splits)

lemma file_flags: "snd (parseConfig_file L g w) = Some g' \<Longrightarrow> flags g' = flags g"
  by (auto simp: parseConfig_file_def flags_def case_prod_unfold split: if_splits sum.splits)

lemma required_flags: "snd (parseConfig_required g w) = Some g' \<Longrightarrow> g' = g"
  by (simp add: parseConfig_required_def split: if_splits)

lemma interval_flags:
  "snd (parseConfig_interval L g w) = Some g' \<Longrightarrow> flags g' = flags g \<and> accessUrl g' = accessUrl g"
  by (auto simp: parseConfig_interval_def flags_def split: sum.splits)

lemma set_client_flags:
  "snd (set_client r g w) = Some g' \<Longrightarrow> flags g' = flags g \<and> accessUrl g' = accessUrl g"
  by (auto simp: set_client_def flags_def split: sum.splits)

lemma client_flags:
  assumes "snd (parseConfig_client L g w) = Some g'"
  shows "flags g' = flags g \<and> accessUrl g' = accessUrl g"
proof -
  have sc: "\<And>r w. snd (set_client r g w) = Some g' \<longrightarrow> flags g' = flags g \<and> accessUrl g' = accessUrl g"
    using set_client_flags by blast
  have "snd (parseConfig_client L g w) = Some g' \<longrightarrow> flags g' = flags g \<and> accessUrl g' = accessUrl g"
    by (simp add: parseConfig_client_def case_prod_unfold Let_def sc split: sum.split)
  with assms show ?thesis by blast
qed

lemma mappings_flags:
  "snd (parseConfig_mappings L g w) = Some g' \<Longrightarrow> flags g' = flags g \<and> accessUrl g' = accessUrl g"
  by (auto simp: parseConfig_mappings_def flags_def case_prod_unfold split: sum.splits)

lemma flags_fields:
  assumes "flags g' = flags g"
  shows "setupToken g' = setupToken g" "accessUrlVolatileFile g' = accessUrlVolatileFile g"
    "secretName g' = secretName g" "secretNamespace g' = secretNamespace g"
    "duration g' = duration g" "accountMappingsFile g' = accountMappingsFile g"
    "debug g' = debug g" "httpPort g' = httpPort g"
  using arg_cong [OF assms, of setupToken] arg_cong [OF assms, of accessUrlVolatileFile]
    arg_cong [OF assms, of secretName] arg_cong [OF assms, of secretNamespace]
    arg_cong [OF assms, of duration] arg_cong [OF assms, of accountMappingsFile]
    arg_cong [OF assms, of debug] arg_cong [OF assms, of httpPort]
  by (simp_all add: flags_def)

lemma before_client_flags:
  assumes "before_client L g w = (w1, Some g1)"
  shows "flags g1 = flags g"
proof -
  have "snd (before_client L g w) = Some g1" using assms by simp
  then show ?thesis
    unfolding before_client_def
    by (elim and_then_globals_view [where v = flags, rotated 2]) (auto dest: debug_flags secret_flags file_flags required_flags interval_flags)
qed

lemma before_file_flags:
  assumes "snd (and_then (parseConfig_debug g w) parseConfig_secret) = Some g2"
  shows "flags g2 = flags g"
  using assms
  by (elim and_then_globals_view [where v = flags, rotated 2]) (auto dest: debug_flags secret_flags)

lemma after_file_accessUrl:
  assumes "snd (after_file L g w) = Some g'"
  shows "accessUrl g' = accessUrl g"
  using assms unfolding after_file_def
  by (elim and_then_globals_view [where v = accessUrl, rotated 2])
    (auto dest: required_flags interval_flags client_flags mappings_flags)

lemma debug_fatal: "snd (parseConfig_debug g w) = None \<Longrightarrow> ends_fatal (fst (parseConfig_debug g w))"
  by (simp add: parseConfig_debug_def split: if_splits)

lemma secret_fatal: "snd (parseConfig_secret g w) = None \<Longrightarrow> ends_fatal (fst (parseConfig_secret g w))"
  by (simp add: parseConfig_secret_def case_prod_unfold split: if_splits option.splits)

lemma file_fatal: "snd (parseConfig_file L g w) = None \<Longrightarrow> ends_fatal (fst (parseConfig_file L g w))"
  by (simp add: parseConfig_file_def case_prod_unfold split: if_splits sum.splits)

lemma required_fatal: "snd (parseConfig_required g w) = None \<Longrightarrow> ends_fatal (fst (parseConfig_required g w))"
  by (simp add: parseConfig_required_def split: if_splits)

lemma interval_fatal: "snd (parseConfig_interval L g w) = None \<Longrightarrow> ends_fatal (fst (parseConfig_interval L g w))"
  by (simp add: parseConfig_interval_def split: sum.splits)

lemma set_client_fatal: "snd (set_client r g w) = None \<Longrightarrow> ends_fatal (fst (set_client r g w))"
  by (simp add: set_client_def split: sum.splits)

lemma client_fatal:
  assumes "snd (parseConfig_client L g w) = None"
  shows "ends_fatal (fst (parseConfig_client L g w))"
proof -
  have sc: "\<And>r g w. snd (set_client r g w) = None \<longrightarrow> ends_fatal (fst (set_client r g w))"
    using set_client_fatal by blast
  have "snd (parseConfig_client L g w) = None \<longrightarrow> ends_fatal (fst (parseConfig_client L g w))"
    by (simp add: parseConfig_client_def case_prod_unfold Let_def sc split: sum.split)
  with assms show ?thesis by blast
qed

lemma mappings_fatal: "snd (parseConfig_mappings L g w) = None \<Longrightarrow> ends_fatal (fst (parseConfig_mappings L g w))"
  by (simp add: parseConfig_mappings_def case_prod_unfold split: sum.splits)

lemma parseConfig_fatal:
  "snd (parseConfig L g w) = None \<Longrightarrow> ends_fatal (fst (parseConfig L g w))"
  unfolding parseConfig_def
  by (intro and_then_fatal debug_fatal secret_fatal file_fatal required_fatal interval_fatal
      client_fatal mappings_fatal)

lemma main_startup_None:
  "snd (parseConfig L g w) = None \<Longrightarrow> main_startup L g w = (fst (parseConfig L g w), None)"
  by (simp add: main_startup_def and_then_None)

text \<open>
  Whenever \<^verbatim>\<open>parseConfig\<close> returns, \<^verbatim>\<open>accountMappings\<close> is set: the branch of
  \<open>main_startup\<close> for \<^verbatim>\<open>nil\<close> is dead.
\<close>

lemma parseConfig_sets_mappings:
  assumes "parseConfig L g w = (w', Some g')"
  shows "accountMappings g' \<noteq> None"
proof -
  from assms obtain w1 g1 where "parseConfig_mappings L g1 w1 = (w', Some g')"
    unfolding parseConfig_def by (rule and_then_SomeE)
  then show ?thesis
    by (auto simp: parseConfig_mappings_def fatal_def case_prod_unfold split: sum.splits)
qed

subsection \<open>Evaluating the model on concrete inputs\<close>

lemmas block_defs = parseConfig_debug_def parseConfig_secret_def
  parseConfig_file_def parseConfig_required_def parseConfig_interval_def
  parseConfig_client_def parseConfig_mappings_def and_then_def fatal_def logw_def emit_def
  initKubernetesClient_def getAccessUrlFromSecret_def saveAccessUrlToSecret_def
  createClientAndGetAccessUrl_def ReadAndDeleteAccessURLFile_def LoadAccountMappings_def
  Secrets_Get_def Secrets_Update_def os_ReadFile_def os_Remove_def Data_lookup_def
  HasPrefix_def NewSimplefinClient_def set_client_def PathError_Error_def ENOENT_def
  IsNotExist_def startExporterServer_def

lemmas input_defs = demo_world_def demo_library_def demo_globals_def token_globals_def
  first_run_world_def forbidden_update_world_def both_globals_def both_world_def
  stale_store_world_def file_globals_def file_world_def unparseable_file_world_def
  undeletable_file_world_def

lemmas parseConfig_defs = parseConfig_def block_defs

section \<open>Credential resolution: the store and the volatile file\<close>

text \<open>
  Claim C1 says that, with a store reference and a volatile file both configured, the
  file is read only if the store gave no valid value, and that a valid value of the
  store is the resolved credential, the file left alone. The block of \<^verbatim>\<open>parseConfig\<close>
  that reads the file does not look at what the store block found. On the input below
  (a secret that holds a valid access URL, a file that holds another) the store read
  returns the URL of the secret and \<^verbatim>\<open>parseConfig\<close> logs "using access URL from
  secret"; it then reads and removes the file and creates the client from the URL of
  the file. Run again on the world it left, where the secret is still valid, it ends in
  a fatal error, because the file is gone.
\<close>

theorem file_overrides_valid_store_value:
  "snd (getAccessUrlFromSecret both_globals both_world)
     = (''https://user:pw@store.example/simplefin'', None)
   \<and> map_option client (snd (parseConfig demo_library both_globals both_world))
     = Some (Some (SimplefinClient ''https://user:pw@file.example/simplefin''))
   \<and> map_option accessUrl (snd (parseConfig demo_library both_globals both_world))
     = Some ''https://user:pw@file.example/simplefin''
   \<and> files (fst (parseConfig demo_library both_globals both_world)) ''/run/access-url'' = None
   \<and> trace (fst (parseConfig demo_library both_globals both_world))
     = [SecretGet ''monitoring'' ''simplefin'',
        Log InfoLevel None ''found valid access URL in secret'',
        Log InfoLevel None ''using access URL from secret'',
        FileRead ''/run/access-url'', FileRemove ''/run/access-url'']
   \<and> snd (parseConfig demo_library both_globals
            (fst (parseConfig demo_library both_globals both_world))) = None"
  by (simp add: parseConfig_defs input_defs)

subsection \<open>A store that gives no valid value\<close>





subsection \<open>The volatile file\<close>

lemma RAD_Inr:
  assumes "snd (ReadAndDeleteAccessURLFile L w p) = Inr u"
  shows "files (fst (ReadAndDeleteAccessURLFile L w p)) = (files w)(p := None)"
    and "\<exists>f. files w p = Some f \<and> read_error f = None
           \<and> url_Parse_String L (content f) = Inr u \<and> remove_error f = None"
  using assms
  by (auto simp: ReadAndDeleteAccessURLFile_def os_ReadFile_def os_Remove_def emit_def
      split: sum.splits option.splits)

lemma RAD_missing:
  assumes "files w p = None"
  shows "snd (ReadAndDeleteAccessURLFile L w p)
    = Inl (''error reading AccessUrl path: open '' @ p @ '': no such file or directory'')"
  using assms
  by (simp add: ReadAndDeleteAccessURLFile_def os_ReadFile_def PathError_Error_def ENOENT_def)

text \<open>Each of the three steps, when it fails, makes the function return an error.\<close>

lemma RAD_failure:
  assumes "files w p = None
     \<or> files w p = Some f \<and> (read_error f \<noteq> None \<or> isl (url_Parse_String L (content f))
          \<or> remove_error f \<noteq> None)"
  shows "isl (snd (ReadAndDeleteAccessURLFile L w p))"
  using assms
  by (auto simp: ReadAndDeleteAccessURLFile_def os_ReadFile_def os_Remove_def
      split: sum.splits option.splits)

lemma file_block_Some:
  assumes "accessUrlVolatileFile g \<noteq> ''''"
    and "parseConfig_file L g w = (w', Some g')"
  shows "snd (ReadAndDeleteAccessURLFile L w (accessUrlVolatileFile g)) = Inr (accessUrl g')"
    and "w' = fst (ReadAndDeleteAccessURLFile L w (accessUrlVolatileFile g))"
  using assms
  by (auto simp: parseConfig_file_def fatal_def case_prod_unfold split: sum.splits)

lemma file_block_failure:
  assumes "accessUrlVolatileFile g \<noteq> ''''"
    and "isl (snd (ReadAndDeleteAccessURLFile L w (accessUrlVolatileFile g)))"
  shows "snd (parseConfig_file L g w) = None"
  using assms
  by (auto simp: parseConfig_file_def case_prod_unfold split: sum.splits)

text \<open>A failure of the read, the parse or the removal ends the process.\<close>

lemma volatile_file_failure_is_fatal:
  assumes "accessUrlVolatileFile g \<noteq> ''''"
    and "isl (snd (ReadAndDeleteAccessURLFile L w (accessUrlVolatileFile g)))"
  shows "snd (parseConfig L g w) = None"
proof (cases "snd (and_then (parseConfig_debug g w) parseConfig_secret)")
  case None
  then show ?thesis
    by (simp add: parseConfig_after_secret and_then_None)
next
  case (Some g2)
  let ?r = "and_then (parseConfig_debug g w) parseConfig_secret"
  have p: "accessUrlVolatileFile g2 = accessUrlVolatileFile g"
    using flags_fields(2) [OF before_file_flags [OF Some]] .
  have "isl (snd (ReadAndDeleteAccessURLFile L (fst ?r) (accessUrlVolatileFile g2)))"
    using RAD_snd_cong [OF before_file_keeps(1), of L g w] assms(2) p by simp
  then have "snd (parseConfig_file L g2 (fst ?r)) = None"
    using assms(1) p by (intro file_block_failure) simp_all
  then show ?thesis
    by (simp add: parseConfig_after_secret and_then_Some [OF Some] after_secret_file and_then_None)
qed

lemma volatile_file_success:
  assumes "accessUrlVolatileFile g \<noteq> ''''"
    and "parseConfig L g w = (w', Some g')"
  shows "snd (ReadAndDeleteAccessURLFile L w (accessUrlVolatileFile g)) = Inr (accessUrl g')"
    and "files w' (accessUrlVolatileFile g) = None"
proof -
  let ?p = "accessUrlVolatileFile g"
  let ?r = "and_then (parseConfig_debug g w) parseConfig_secret"
  from assms(2) obtain w2 g2 where r: "?r = (w2, Some g2)"
    and a: "after_secret L g2 w2 = (w', Some g')"
    unfolding parseConfig_after_secret by (rule and_then_SomeE)
  from a obtain w3 g3 where f: "parseConfig_file L g2 w2 = (w3, Some g3)"
    and t: "after_file L g3 w3 = (w', Some g')"
    unfolding after_secret_file by (rule and_then_SomeE)
  have p: "accessUrlVolatileFile g2 = ?p"
    using flags_fields(2) [OF before_file_flags [of g w g2]] r by simp
  have fw: "files w2 = files w"
    using before_file_keeps(1) [of g w] r by simp
  have u: "accessUrl g' = accessUrl g3"
    using after_file_accessUrl [of L g3 w3 g'] t by simp
  have rd: "snd (ReadAndDeleteAccessURLFile L w2 ?p) = Inr (accessUrl g')"
    and w3: "w3 = fst (ReadAndDeleteAccessURLFile L w2 ?p)"
    using file_block_Some [of g2 L w2 w3 g3] f assms(1) p u by simp_all
  show "snd (ReadAndDeleteAccessURLFile L w ?p) = Inr (accessUrl g')"
    using RAD_snd_cong [OF fw, of L ?p] rd by simp
  have "files w3 ?p = None"
    using RAD_Inr(1) [OF rd] w3 by simp
  then show "files w' ?p = None"
    using after_file_keeps [of L g3 w3] t by simp
qed

text \<open>
  Claim C5. Let a volatile file path be configured. If \<^verbatim>\<open>parseConfig\<close> returns,
  then the read, the parse and the removal of the file all succeeded and gave the
  access URL it leaves; the file no longer exists; reading it again fails with "no
  such file or directory"; and a second \<^verbatim>\<open>parseConfig\<close> with the same path ends in
  a fatal error. And if a step on the file fails (the file is missing or cannot be
  read, its content does not parse as a URL, or it cannot be removed), then
  \<^verbatim>\<open>parseConfig\<close> returns no credential: it ends the process with a fatal log
  entry.
\<close>

theorem volatile_file_consumed_exactly_once:
  assumes "accessUrlVolatileFile g \<noteq> ''''"
  shows "(parseConfig L g w = (w', Some g') \<longrightarrow>
            snd (ReadAndDeleteAccessURLFile L w (accessUrlVolatileFile g)) = Inr (accessUrl g')
          \<and> files w' (accessUrlVolatileFile g) = None
          \<and> snd (ReadAndDeleteAccessURLFile L w' (accessUrlVolatileFile g))
              = Inl (''error reading AccessUrl path: open '' @ accessUrlVolatileFile g
                      @ '': no such file or directory'')
          \<and> snd (parseConfig L g w') = None)
       \<and> (files w (accessUrlVolatileFile g) = None
            \<or> files w (accessUrlVolatileFile g) = Some f
              \<and> (read_error f \<noteq> None \<or> isl (url_Parse_String L (content f))
                  \<or> remove_error f \<noteq> None)
          \<longrightarrow> snd (parseConfig L g w) = None
            \<and> (\<exists>tr e m. trace (fst (parseConfig L g w)) = tr @ [Log FatalLevel e m]))"
proof -
  let ?p = "accessUrlVolatileFile g"
  have ok: "snd (ReadAndDeleteAccessURLFile L w ?p) = Inr (accessUrl g')
          \<and> files w' ?p = None
          \<and> snd (ReadAndDeleteAccessURLFile L w' ?p)
              = Inl (''error reading AccessUrl path: open '' @ ?p @ '': no such file or directory'')
          \<and> snd (parseConfig L g w') = None"
    if r: "parseConfig L g w = (w', Some g')"
  proof -
    note s = volatile_file_success [OF assms r]
    have again: "snd (ReadAndDeleteAccessURLFile L w' ?p)
        = Inl (''error reading AccessUrl path: open '' @ ?p @ '': no such file or directory'')"
      using s(2) by (rule RAD_missing)
    have "snd (parseConfig L g w') = None"
      using assms by (rule volatile_file_failure_is_fatal) (simp add: again)
    with s again show ?thesis by simp
  qed
  have bad: "snd (parseConfig L g w) = None
      \<and> (\<exists>tr e m. trace (fst (parseConfig L g w)) = tr @ [Log FatalLevel e m])"
    if c: "files w ?p = None
            \<or> files w ?p = Some f
              \<and> (read_error f \<noteq> None \<or> isl (url_Parse_String L (content f))
                  \<or> remove_error f \<noteq> None)"
  proof -
    have "isl (snd (ReadAndDeleteAccessURLFile L w ?p))"
      using c by (rule RAD_failure)
    with assms have n: "snd (parseConfig L g w) = None"
      by (rule volatile_file_failure_is_fatal)
    with parseConfig_fatal [OF n] show ?thesis
      by (simp add: ends_fatal_iff)
  qed
  from ok bad show ?thesis by blast
qed

theorem volatile_file_consumed_exactly_once_witness:
  "accessUrlVolatileFile file_globals \<noteq> ''''
   \<and> snd (parseConfig demo_library file_globals file_world)
       = Some (file_globals\<lparr> accessUrl := ''https://user:pw@file.example/simplefin'',
            updateInterval := 3600000000000,
            client := Some (SimplefinClient ''https://user:pw@file.example/simplefin''),
            accountMappings := Some \<lparr>Mappings = [], IgnoreList = []\<rparr> \<rparr>)
   \<and> files (fst (parseConfig demo_library file_globals file_world)) ''/run/access-url'' = None
   \<and> snd (ReadAndDeleteAccessURLFile demo_library
            (fst (parseConfig demo_library file_globals file_world)) ''/run/access-url'')
       = Inl ''error reading AccessUrl path: open /run/access-url: no such file or directory''
   \<and> snd (parseConfig demo_library file_globals
            (fst (parseConfig demo_library file_globals file_world))) = None
   \<and> files demo_world (accessUrlVolatileFile file_globals) = None
   \<and> snd (parseConfig demo_library file_globals demo_world) = None
   \<and> isl (url_Parse_String demo_library ''%'')
   \<and> snd (parseConfig demo_library file_globals unparseable_file_world) = None
   \<and> snd (parseConfig demo_library file_globals undeletable_file_world) = None
   \<and> trace (fst (parseConfig demo_library file_globals undeletable_file_world))
       = [FileRead ''/run/access-url'', FileRemove ''/run/access-url'',
          Log FatalLevel
            (Some ''error removing AccessUrl file: remove /run/access-url: read-only file system'')
            ''failed to read AccessUrl config'']"
proof -
  let ?g' = "file_globals\<lparr> accessUrl := ''https://user:pw@file.example/simplefin'',
            updateInterval := 3600000000000,
            client := Some (SimplefinClient ''https://user:pw@file.example/simplefin''),
            accountMappings := Some \<lparr>Mappings = [], IgnoreList = []\<rparr> \<rparr>"
  let ?bad = "\<lparr>content = ''%'', read_error = None, remove_error = None\<rparr>"
  let ?stuck = "\<lparr>content = ''https://user:pw@file.example/simplefin'', read_error = None,
                    remove_error = Some ''read-only file system''\<rparr>"
  have h1: "accessUrlVolatileFile file_globals \<noteq> ''''"
    by (simp add: input_defs)
  have p: "accessUrlVolatileFile file_globals = ''/run/access-url''"
    by (simp add: input_defs)
  have r: "snd (parseConfig demo_library file_globals file_world) = Some ?g'"
    by (simp add: parseConfig_defs input_defs)
  have h2: "parseConfig demo_library file_globals file_world
      = (fst (parseConfig demo_library file_globals file_world), Some ?g')"
    using r by (metis prod.collapse)
  have m: "files demo_world (accessUrlVolatileFile file_globals) = None"
    by (simp add: input_defs)
  have b: "files unparseable_file_world (accessUrlVolatileFile file_globals) = Some ?bad"
    "isl (url_Parse_String demo_library (content ?bad))"
    by (simp_all add: input_defs)
  have s: "files undeletable_file_world (accessUrlVolatileFile file_globals) = Some ?stuck"
    "remove_error ?stuck \<noteq> None"
    by (simp_all add: input_defs)
  have tr: "trace (fst (parseConfig demo_library file_globals undeletable_file_world))
       = [FileRead ''/run/access-url'', FileRemove ''/run/access-url'',
          Log FatalLevel
            (Some ''error removing AccessUrl file: remove /run/access-url: read-only file system'')
            ''failed to read AccessUrl config'']"
    by (simp add: parseConfig_defs input_defs)
  note t1 = volatile_file_consumed_exactly_once [OF h1, of demo_library file_world _ ?g',
      THEN conjunct1, THEN mp, OF h2]
  note t2 = volatile_file_consumed_exactly_once [OF h1, of demo_library demo_world,
      THEN conjunct2, THEN mp, OF disjI1, OF m]
  note t3 = volatile_file_consumed_exactly_once [OF h1, of demo_library unparseable_file_world
      _ _ ?bad, THEN conjunct2, THEN mp, OF disjI2, OF conjI, OF b(1) disjI2, OF disjI1, OF b(2)]
  note t4 = volatile_file_consumed_exactly_once [OF h1, of demo_library undeletable_file_world
      _ _ ?stuck, THEN conjunct2, THEN mp, OF disjI2, OF conjI, OF s(1) disjI2, OF disjI2,
      OF s(2)]
  show ?thesis
    using h1 r m b(2) tr t1 t2 t3 t4 by (simp add: p)
qed

section \<open>Credential resolution: the setup token\<close>






lemma client_block_status:
  assumes "accessUrl g = ''''"
    and "base64_DecodeString L (setupToken g) = Inr claimUrl"
    and "http_NewRequest_err L claimUrl = None"
    and "http_response w claimUrl = Inr (StatusCode, body)"
    and "StatusCode \<noteq> 200"
  shows "parseConfig_client L g w =
     (logw FatalLevel
        (Some (case body of
                 Inl e \<Rightarrow> ''error getting access url: '' @ e
               | Inr b \<Rightarrow> ''setup token claim failed with status '' @ show_int StatusCode
                           @ '': '' @ b))
        ''failed to create client from setup token'' (emit (HttpPost claimUrl) w), None)"
  using assms
  by (simp add: parseConfig_client_def createClientAndGetAccessUrl_def fatal_def Let_def
      split: sum.splits)

text \<open>
  Claim C3. Let \<^verbatim>\<open>parseConfig\<close> reach the block that creates the client with no
  access URL, and let the POST to the decoded claim URL return a status other than 200.
  Then \<^verbatim>\<open>parseConfig\<close> ends the process with a fatal log entry whose error holds the
  status code and the response body (or, when the body could not be read, the error of
  reading it); the secrets are what they were, no update of a secret was attempted, and
  \<^verbatim>\<open>main\<close> ends there, the metrics server never started.
\<close>

theorem token_exchange_failure_is_fatal:
  assumes "before_client L g w = (w1, Some g1)"
    and "accessUrl g1 = ''''"
    and "base64_DecodeString L (setupToken g) = Inr claimUrl"
    and "http_NewRequest_err L claimUrl = None"
    and "http_response w claimUrl = Inr (StatusCode, body)"
    and "StatusCode \<noteq> 200"
  shows "parseConfig L g w =
           (logw FatalLevel
              (Some (case body of
                       Inl e \<Rightarrow> ''error getting access url: '' @ e
                     | Inr b \<Rightarrow> ''setup token claim failed with status ''
                                 @ show_int StatusCode @ '': '' @ b))
              ''failed to create client from setup token'' (emit (HttpPost claimUrl) w1), None)
       \<and> secrets (fst (parseConfig L g w)) = secrets w
       \<and> filter is_secret_update (trace (fst (parseConfig L g w)))
           = filter is_secret_update (trace w)
       \<and> main_startup L g w = (fst (parseConfig L g w), None :: (globals \<times> 'v Exporter) option)
       \<and> filter is_listen (trace (fst (parseConfig L g w))) = filter is_listen (trace w)"
proof -
  have fl: "setupToken g1 = setupToken g"
    using before_client_flags [OF assms(1)] by (rule flags_fields)
  have k: "static w1 = static w" "store_view w1 = store_view w"
    using before_client_keeps(1,3) [of L g w] assms(1) by simp_all
  have h: "http_response w1 claimUrl = Inr (StatusCode, body)"
    using static_fields(5) [OF k(1)] assms(5) by simp
  have c: "parseConfig_client L g1 w1 =
     (logw FatalLevel
        (Some (case body of
                 Inl e \<Rightarrow> ''error getting access url: '' @ e
               | Inr b \<Rightarrow> ''setup token claim failed with status '' @ show_int StatusCode
                           @ '': '' @ b))
        ''failed to create client from setup token'' (emit (HttpPost claimUrl) w1), None)"
    using client_block_status [OF assms(2) _ assms(4) h assms(6)] assms(3) fl by simp
  have p: "parseConfig L g w =
     (logw FatalLevel
        (Some (case body of
                 Inl e \<Rightarrow> ''error getting access url: '' @ e
               | Inr b \<Rightarrow> ''setup token claim failed with status '' @ show_int StatusCode
                           @ '': '' @ b))
        ''failed to create client from setup token'' (emit (HttpPost claimUrl) w1), None)"
    by (simp add: parseConfig_split assms(1) and_then_def c)
  have s: "secrets (fst (parseConfig L g w)) = secrets w"
    "filter is_secret_update (trace (fst (parseConfig L g w))) = filter is_secret_update (trace w)"
    using store_view_fields [OF k(2)] by (simp_all add: p is_secret_update_def)
  have m: "main_startup L g w = (fst (parseConfig L g w), None :: (globals \<times> 'v Exporter) option)"
    by (rule main_startup_None) (simp add: p)
  have l: "filter is_listen (trace (fst (parseConfig L g w))) = filter is_listen (trace w)"
    using parseConfig_keeps(2) [of L g w] by (simp add: served_def)
  show ?thesis using p s m l by blast
qed

theorem token_exchange_failure_is_fatal_witness:
  "before_client demo_library token_globals (first_run_world 403 ''Forbidden'')
     = ((first_run_world 403 ''Forbidden'')\<lparr>trace := [SecretGet ''monitoring'' ''simplefin'']\<rparr>,
        Some (token_globals\<lparr>updateInterval := 3600000000000\<rparr>))
   \<and> accessUrl (token_globals\<lparr>updateInterval := 3600000000000\<rparr>) = ''''
   \<and> base64_DecodeString demo_library (setupToken token_globals)
       = Inr ''https://bridge.example/claim/1''
   \<and> http_NewRequest_err demo_library ''https://bridge.example/claim/1'' = None
   \<and> http_response (first_run_world 403 ''Forbidden'') ''https://bridge.example/claim/1''
       = Inr (403, Inr ''Forbidden'')
   \<and> (403 :: int) \<noteq> 200
   \<and> snd (parseConfig demo_library token_globals (first_run_world 403 ''Forbidden'')) = None
   \<and> trace (fst (parseConfig demo_library token_globals (first_run_world 403 ''Forbidden'')))
       = [SecretGet ''monitoring'' ''simplefin'', HttpPost ''https://bridge.example/claim/1'',
          Log FatalLevel (Some ''setup token claim failed with status 403: Forbidden'')
            ''failed to create client from setup token'']
   \<and> secrets (fst (parseConfig demo_library token_globals (first_run_world 403 ''Forbidden'')))
       = secrets (first_run_world 403 ''Forbidden'')
   \<and> snd (main_startup demo_library token_globals (first_run_world 403 ''Forbidden'')
            :: world \<times> (globals \<times> real Exporter) option) = None"
proof -
  have h1: "before_client demo_library token_globals (first_run_world 403 ''Forbidden'')
     = ((first_run_world 403 ''Forbidden'')\<lparr>trace := [SecretGet ''monitoring'' ''simplefin'']\<rparr>,
        Some (token_globals\<lparr>updateInterval := 3600000000000\<rparr>))"
    by (simp add: before_client_def block_defs input_defs)
  have h2: "accessUrl (token_globals\<lparr>updateInterval := 3600000000000\<rparr>) = ''''"
    by (simp add: input_defs)
  have h3: "base64_DecodeString demo_library (setupToken token_globals)
       = Inr ''https://bridge.example/claim/1''"
    by (simp add: input_defs)
  have h4: "http_NewRequest_err demo_library ''https://bridge.example/claim/1'' = None"
    by (simp add: input_defs)
  have h5: "http_response (first_run_world 403 ''Forbidden'') ''https://bridge.example/claim/1''
       = Inr (403, Inr ''Forbidden'')"
    by (simp add: input_defs)
  have h6: "(403 :: int) \<noteq> 200" by simp
  have s: "show_int 403 = ''403''"
    by (simp add: show_int_def show_nat.simps)
  note t = token_exchange_failure_is_fatal [OF h1 h2 h3 h4 h5 h6, where 'v = real]
  show ?thesis
    using h1 h2 h3 h4 h5 t by (simp add: s)
qed

section \<open>No credential source\<close>

lemma createClient_snd_cong:
  "static w1 = static w \<Longrightarrow>
     snd (createClientAndGetAccessUrl L w1 t) = snd (createClientAndGetAccessUrl L w t)"
  by (auto simp: createClientAndGetAccessUrl_def static_def Let_def split: sum.splits option.splits)

lemma secret_block_nothing:
  assumes "secretName g = '''' \<or> secretNamespace g = ''''
       \<or> fst (snd (getAccessUrlFromSecret g w)) = ''''"
    and "snd (parseConfig_secret g w) = Some g'"
  shows "g' = g"
  using assms
  by (auto simp: parseConfig_secret_def case_prod_unfold split: if_splits option.splits)

lemma file_block_nothing:
  assumes "accessUrlVolatileFile g = ''''
       \<or> (case snd (ReadAndDeleteAccessURLFile L w (accessUrlVolatileFile g)) of
             Inl _ \<Rightarrow> True | Inr u \<Rightarrow> u = '''')"
    and "accessUrl g = ''''"
    and "snd (parseConfig_file L g w) = Some g'"
  shows "accessUrl g' = '''' \<and> setupToken g' = setupToken g"
  using assms
  by (auto simp: parseConfig_file_def case_prod_unfold split: if_splits sum.splits)

lemma after_file_required:
  assumes "accessUrl g = ''''" and "setupToken g = ''''"
  shows "after_file L g w = (logw FatalLevel None ''Access URL or Setup Token required'' w, None)"
  using assms by (simp add: after_file_def parseConfig_required_def fatal_def and_then_def)

lemma after_file_nothing:
  assumes "accessUrl g = ''''"
    and "setupToken g = '''' \<or> isl (snd (createClientAndGetAccessUrl L w (setupToken g)))"
  shows "snd (after_file L g w) = None"
proof (cases "setupToken g = ''''")
  case True
  with assms(1) show ?thesis by (simp add: after_file_required)
next
  case False
  with assms(2) obtain e where x: "snd (createClientAndGetAccessUrl L w (setupToken g)) = Inl e"
    by (cases "snd (createClientAndGetAccessUrl L w (setupToken g))") auto
  have r: "parseConfig_required g w = (w, Some g)"
    using assms(1) False by (simp add: parseConfig_required_def)
  show ?thesis
  proof (cases "time_ParseDuration L (duration g)")
    case (Inl a)
    then show ?thesis
      by (simp add: after_file_def r and_then_def parseConfig_interval_def fatal_def)
  next
    case (Inr d)
    have "snd (parseConfig_client L (g\<lparr>updateInterval := d\<rparr>) w) = None"
      using assms(1) x by (simp add: parseConfig_client_def case_prod_unfold)
    moreover have "after_file L g w
        = and_then (parseConfig_client L (g\<lparr>updateInterval := d\<rparr>) w) (parseConfig_mappings L)"
      using Inr by (simp add: after_file_def r parseConfig_interval_def and_then_def)
    ultimately show ?thesis
      by (simp add: and_then_None)
  qed
qed

lemma no_source_parseConfig:
  assumes "accessUrl g = ''''"
    and "setupToken g = '''' \<or> isl (snd (createClientAndGetAccessUrl L w (setupToken g)))"
    and "secretName g = '''' \<or> secretNamespace g = ''''
       \<or> fst (snd (getAccessUrlFromSecret g w)) = ''''"
    and "accessUrlVolatileFile g = ''''
       \<or> (case snd (ReadAndDeleteAccessURLFile L w (accessUrlVolatileFile g)) of
             Inl _ \<Rightarrow> True | Inr u \<Rightarrow> u = '''')"
  shows "snd (parseConfig L g w) = None"
proof -
  let ?w0 = "fst (parseConfig_debug g w)"
  have k: "static ?w0 = static w" "secrets ?w0 = secrets w" "files ?w0 = files w"
    using debug_keeps(1,3,4) [of g w] by (simp_all add: store_view_def)
  have s0: "secretName g = '''' \<or> secretNamespace g = ''''
       \<or> fst (snd (getAccessUrlFromSecret g ?w0)) = ''''"
    using assms(3) getAccessUrl_snd_cong [OF k(1,2), of g] by simp
  show ?thesis
  proof (cases "snd (parseConfig_secret g ?w0)")
    case None
    then show ?thesis
      by (simp add: parseConfig_after_secret debug_then and_then_None)
  next
    case (Some g2)
    let ?w2 = "fst (parseConfig_secret g ?w0)"
    have g2: "g2 = g" using secret_block_nothing [OF s0 Some] .
    have fw: "files ?w2 = files w" and sw: "static ?w2 = static w"
      using secret_keeps(1,4) [of g ?w0] k by simp_all
    have f0: "accessUrlVolatileFile g = ''''
       \<or> (case snd (ReadAndDeleteAccessURLFile L ?w2 (accessUrlVolatileFile g)) of
             Inl _ \<Rightarrow> True | Inr u \<Rightarrow> u = '''')"
      using assms(4) RAD_snd_cong [OF fw, of L "accessUrlVolatileFile g"] by simp
    have p: "parseConfig L g w = and_then (parseConfig_file L g ?w2) (after_file L)"
      using Some g2
      by (simp add: parseConfig_after_secret debug_then and_then_Some after_secret_file)
    show ?thesis
    proof (cases "snd (parseConfig_file L g ?w2)")
      case None
      then show ?thesis by (simp add: p and_then_None)
    next
      case (Some g3)
      let ?w3 = "fst (parseConfig_file L g ?w2)"
      have g3: "accessUrl g3 = ''''" "setupToken g3 = setupToken g"
        using file_block_nothing [OF f0 assms(1) Some] by simp_all
      have "static ?w3 = static w"
        using file_keeps(1) [of L g ?w2] sw by simp
      then have "setupToken g3 = ''''
          \<or> isl (snd (createClientAndGetAccessUrl L ?w3 (setupToken g3)))"
        using assms(2) g3(2) createClient_snd_cong [of ?w3 w L "setupToken g"] by simp
      with g3(1) have "snd (after_file L g3 ?w3) = None"
        by (rule after_file_nothing)
      then show ?thesis
        by (simp add: p and_then_Some [OF Some])
    qed
  qed
qed

text \<open>
  Claim C9. Let every credential source be absent or give nothing: no explicit access
  URL; no setup token, or a token whose exchange fails; the store not configured, or
  its read without a valid value; the volatile file not configured, or without a URL
  (it fails, or holds the empty URL). Then \<^verbatim>\<open>main\<close> ends during \<^verbatim>\<open>parseConfig\<close>:
  it returns no running state, its trace ends with a fatal log entry, and no start of
  the metrics server is in the trace. With no token and neither store nor file
  configured, the fatal entry is "Access URL or Setup Token required".
\<close>

theorem no_credential_source_is_fatal:
  assumes "accessUrl g = ''''"
    and "setupToken g = '''' \<or> isl (snd (createClientAndGetAccessUrl L w (setupToken g)))"
    and "secretName g = '''' \<or> secretNamespace g = ''''
       \<or> fst (snd (getAccessUrlFromSecret g w)) = ''''"
    and "accessUrlVolatileFile g = ''''
       \<or> (case snd (ReadAndDeleteAccessURLFile L w (accessUrlVolatileFile g)) of
             Inl _ \<Rightarrow> True | Inr u \<Rightarrow> u = '''')"
  shows "snd (main_startup L g w :: world \<times> (globals \<times> 'v Exporter) option) = None
       \<and> filter is_listen
            (trace (fst (main_startup L g w :: world \<times> (globals \<times> 'v Exporter) option)))
           = filter is_listen (trace w)
       \<and> (\<exists>tr e m.
            trace (fst (main_startup L g w :: world \<times> (globals \<times> 'v Exporter) option))
              = tr @ [Log FatalLevel e m])
       \<and> (setupToken g = '''' \<and> (secretName g = '''' \<or> secretNamespace g = '''')
            \<and> accessUrlVolatileFile g = ''''
          \<longrightarrow> (main_startup L g w :: world \<times> (globals \<times> 'v Exporter) option)
                = (logw FatalLevel None ''Access URL or Setup Token required''
                     (fst (parseConfig_debug g w)), None))"
proof -
  have n: "snd (parseConfig L g w) = None"
    using assms by (rule no_source_parseConfig)
  have m: "(main_startup L g w :: world \<times> (globals \<times> 'v Exporter) option)
      = (fst (parseConfig L g w), None)"
    using n by (rule main_startup_None)
  have l: "filter is_listen (trace (fst (parseConfig L g w))) = filter is_listen (trace w)"
    using parseConfig_keeps(2) [of L g w] by (simp add: served_def)
  have f: "\<exists>tr e m. trace (fst (parseConfig L g w)) = tr @ [Log FatalLevel e m]"
    using parseConfig_fatal [OF n] by (simp add: ends_fatal_iff)
  have x: "parseConfig L g w
      = (logw FatalLevel None ''Access URL or Setup Token required''
           (fst (parseConfig_debug g w)), None)"
    if "setupToken g = ''''" "secretName g = '''' \<or> secretNamespace g = ''''"
      "accessUrlVolatileFile g = ''''"
  proof -
    have "parseConfig_secret g (fst (parseConfig_debug g w))
        = (fst (parseConfig_debug g w), Some g)"
      using that(2) by (auto simp: parseConfig_secret_def)
    moreover have "parseConfig_file L g (fst (parseConfig_debug g w))
        = (fst (parseConfig_debug g w), Some g)"
      using that(3) by (simp add: parseConfig_file_def)
    ultimately have "parseConfig L g w = after_file L g (fst (parseConfig_debug g w))"
      by (simp only: parseConfig_after_secret debug_then)
        (simp add: and_then_def after_secret_file)
    then show ?thesis
      using assms(1) that(1) by (simp add: after_file_required)
  qed
  show ?thesis
    using n m l f x by simp
qed

theorem no_credential_source_is_fatal_witness:
  "accessUrl demo_globals = '''' \<and> setupToken demo_globals = ''''
   \<and> secretName demo_globals = '''' \<and> accessUrlVolatileFile demo_globals = ''''
   \<and> (main_startup demo_library demo_globals demo_world
         :: world \<times> (globals \<times> real Exporter) option)
       = (demo_world\<lparr>trace := [Log FatalLevel None ''Access URL or Setup Token required'']\<rparr>,
          None)
   \<and> filter is_listen (trace (fst (main_startup demo_library demo_globals demo_world
         :: world \<times> (globals \<times> real Exporter) option))) = []"
proof -
  have h1: "accessUrl demo_globals = ''''" and h2: "setupToken demo_globals = ''''"
    and h3: "secretName demo_globals = ''''" and h4: "accessUrlVolatileFile demo_globals = ''''"
    by (simp_all add: input_defs)
  have w0: "fst (parseConfig_debug demo_globals demo_world) = demo_world"
    by (simp add: block_defs input_defs)
  have tr: "trace demo_world = []"
    by (simp add: input_defs)
  note t = no_credential_source_is_fatal [of demo_globals demo_library demo_world,
      where 'v = real, OF h1 disjI1 [OF h2] disjI1 [OF h3] disjI1 [OF h4]]
  show ?thesis
    using h1 h2 h3 h4 t by (simp add: w0 tr logw_def emit_def is_listen_def)
qed

end
